theory Spec2Isabelle
  imports Main "HOL-Library.Word" "HOL-Library.Sublist"
begin

unbundle bit_operations_syntax

section \<open>Python values used by the codecs\<close>

text \<open>
  A \<open>bytes\<close> object is a list of octets. Indexing one yields a Python integer in
  \<open>0..255\<close> (\<open>uint\<close> of the octet). Python integers are unbounded (\<open>int\<close>); an
  argument whose default is \<open>None\<close> is a \<open>pyint\<close>.
\<close>

type_synonym bytes = "8 word list"

datatype pyint = PyNone | PyInt int

datatype error = IndexError | StructError | AttributeError | TypeError

definition bind_err :: "error + 'a \<Rightarrow> ('a \<Rightarrow> error + 'b) \<Rightarrow> error + 'b" where
  "bind_err m f = (case m of Inl e \<Rightarrow> Inl e | Inr x \<Rightarrow> f x)"

text \<open>Attribute access \<open>self.name\<close>: \<open>AttributeError\<close> when the attribute was never set.\<close>

definition getattr :: "'a option \<Rightarrow> error + 'a" where
  "getattr a = (case a of None \<Rightarrow> Inl AttributeError | Some v \<Rightarrow> Inr v)"

text \<open>Slicing with non-negative bounds, \<open>b[i:j]\<close>, and indexing, \<open>b[i]\<close>.\<close>

definition slice :: "nat \<Rightarrow> nat \<Rightarrow> 'a list \<Rightarrow> 'a list" where
  "slice i j b = drop i (take j b)"

definition index :: "bytes \<Rightarrow> nat \<Rightarrow> error + int" where
  "index b i = (if i < length b then Inr (uint (b ! i)) else Inl IndexError)"

subsection \<open>\<open>struct.pack\<close> and \<open>struct.unpack\<close>, network byte order\<close>

text \<open>
  \<open>struct.pack\<close> raises \<open>struct.error\<close> for a value that is not an integer or is
  out of the range of the format; \<open>struct.unpack\<close> raises it unless the buffer has
  exactly the size of the format.
\<close>

definition pack_B :: "pyint \<Rightarrow> error + bytes" where
  "pack_B v = (case v of PyNone \<Rightarrow> Inl StructError
     | PyInt n \<Rightarrow> if 0 \<le> n \<and> n \<le> 0xFF then Inr [word_of_int n] else Inl StructError)"

definition pack_H :: "pyint \<Rightarrow> error + bytes" where
  "pack_H v = (case v of PyNone \<Rightarrow> Inl StructError
     | PyInt n \<Rightarrow> if 0 \<le> n \<and> n \<le> 0xFFFF
         then Inr [word_of_int (n div 256), word_of_int n] else Inl StructError)"

definition pack_L :: "pyint \<Rightarrow> error + bytes" where
  "pack_L v = (case v of PyNone \<Rightarrow> Inl StructError
     | PyInt n \<Rightarrow> if 0 \<le> n \<and> n \<le> 0xFFFFFFFF
         then Inr [word_of_int (n div 16777216), word_of_int (n div 65536),
                   word_of_int (n div 256), word_of_int n]
         else Inl StructError)"

fun unpack_H :: "bytes \<Rightarrow> error + int" where
  "unpack_H [a, b] = Inr (uint a * 256 + uint b)"
| "unpack_H _ = Inl StructError"

fun unpack_L :: "bytes \<Rightarrow> error + int" where
  "unpack_L [a, b, c, d] =
     Inr (uint a * 16777216 + uint b * 65536 + uint c * 256 + uint d)"
| "unpack_L _ = Inl StructError"

text \<open>\<open>struct.pack\<close> with several fields: the fields in order, an error if any fails.\<close>

fun pack_all :: "(error + bytes) list \<Rightarrow> error + bytes" where
  "pack_all [] = Inr []"
| "pack_all (f # fs) =
     bind_err f (\<lambda>x. bind_err (pack_all fs) (\<lambda>xs. Inr (x @ xs)))"

text \<open>\<open>struct.unpack(f"! {len(b) >> 1}H", b)\<close>: the 16-bit words of an even-sized buffer.\<close>

fun words_be :: "bytes \<Rightarrow> int list" where
  "words_be (a # b # rest) = (uint a * 256 + uint b) # words_be rest"
| "words_be _ = []"

definition unpack_words :: "bytes \<Rightarrow> error + int list" where
  "unpack_words b = (if even (length b) then Inr (words_be b) else Inl StructError)"

section \<open>Tracker\<close>

text \<open>
  Modelled from the spec: the class \<open>Tracker\<close> (module \<open>tracker\<close>) is imported by both
  codecs and is not among the sources. The specification describes it as a small record
  carrying a direction tag (\<open>RX\<close> or \<open>TX\<close>), a monotonically assigned id, and an optional
  back-link to an originating tracker. The id is drawn from a counter that the
  constructor advances.
\<close>

datatype direction = RX | TX

datatype Tracker =
  Tracker (direction: direction) (serial: nat) (echo_tracker: "Tracker option")

definition Tracker_init :: "direction \<Rightarrow> Tracker option \<Rightarrow> nat \<Rightarrow> Tracker \<times> nat" where
  "Tracker_init d echo n = (Tracker d n echo, Suc n)"

section \<open>The enclosing packet\<close>

text \<open>
  Both constructors read three attributes of the packet that carried the message (the
  IPv4 packet, whose class is not among the sources). The test \<open>if parent_packet:\<close> is
  modelled by the presence of the argument: a constructor receives \<open>Some\<close> parent
  packet or \<open>None\<close>.
\<close>

record ParentPacket =
  pp_tracker :: Tracker
  pp_raw_data :: bytes
  pp_ip_pseudo_header :: bytes

section \<open>ICMPv4 (ps\_icmpv4.py)\<close>

definition ICMP4_ECHOREPLY :: int where "ICMP4_ECHOREPLY = 0"
definition ICMP4_UNREACHABLE :: int where "ICMP4_UNREACHABLE = 3"
definition ICMP4_UNREACHABLE_PORT :: int where "ICMP4_UNREACHABLE_PORT = 3"
definition ICMP4_ECHOREQUEST :: int where "ICMP4_ECHOREQUEST = 8"

text \<open>
  The per-type attributes exist only on the paths that assign them: \<open>None\<close> is an
  attribute that was never set.
\<close>

record Icmp4Packet =
  icmp_tracker :: Tracker
  icmpv4_type :: pyint
  icmpv4_code :: int
  icmpv4_cksum :: int
  icmpv4_ec_id :: "pyint option"
  icmpv4_ec_seq :: "pyint option"
  icmpv4_ec_raw_data :: "bytes option"
  icmpv4_un_reserved :: "int option"
  icmpv4_un_raw_data :: "bytes option"
  unknown_message :: "bytes option"

definition icmp_blank :: "Tracker \<Rightarrow> pyint \<Rightarrow> int \<Rightarrow> int \<Rightarrow> Icmp4Packet" where
  "icmp_blank t ty co ck =
     \<lparr>icmp_tracker = t, icmpv4_type = ty, icmpv4_code = co, icmpv4_cksum = ck,
      icmpv4_ec_id = None, icmpv4_ec_seq = None, icmpv4_ec_raw_data = None,
      icmpv4_un_reserved = None, icmpv4_un_raw_data = None, unknown_message = None\<rparr>"

text \<open>The parsing branch of \<open>Icmp4Packet.__init__\<close>.\<close>

definition icmp_parse_echo :: "Icmp4Packet \<Rightarrow> bytes \<Rightarrow> error + Icmp4Packet" where
  "icmp_parse_echo p raw_packet =
     bind_err (unpack_H (slice 4 6 raw_packet)) (\<lambda>ec_id.
     bind_err (unpack_H (slice 6 8 raw_packet)) (\<lambda>ec_seq.
     Inr (p\<lparr>icmpv4_ec_id := Some (PyInt ec_id), icmpv4_ec_seq := Some (PyInt ec_seq),
            icmpv4_ec_raw_data := Some (drop 8 raw_packet)\<rparr>)))"

definition Icmp4Packet_parse :: "ParentPacket \<Rightarrow> error + Icmp4Packet" where
  "Icmp4Packet_parse parent_packet =
     (let raw_packet = pp_raw_data parent_packet in
      bind_err (index raw_packet 0) (\<lambda>ty.
      bind_err (index raw_packet 1) (\<lambda>co.
      bind_err (unpack_H (slice 2 4 raw_packet)) (\<lambda>ck.
      let p = icmp_blank (pp_tracker parent_packet) (PyInt ty) co ck in
      if ty = ICMP4_ECHOREPLY then icmp_parse_echo p raw_packet
      else if ty = ICMP4_UNREACHABLE then
        bind_err (unpack_L (slice 4 6 raw_packet)) (\<lambda>un_reserved.
        Inr (p\<lparr>icmpv4_un_reserved := Some un_reserved,
               icmpv4_un_raw_data := Some (drop 8 raw_packet)\<rparr>))
      else if ty = ICMP4_ECHOREQUEST then icmp_parse_echo p raw_packet
      else Inr (p\<lparr>unknown_message := Some (drop 4 raw_packet)\<rparr>)))))"

text \<open>The building branch of \<open>Icmp4Packet.__init__\<close>.\<close>

definition Icmp4Packet_build ::
  "pyint \<Rightarrow> int \<Rightarrow> pyint \<Rightarrow> pyint \<Rightarrow> bytes \<Rightarrow> bytes \<Rightarrow> Tracker option \<Rightarrow> nat
     \<Rightarrow> Icmp4Packet \<times> nat" where
  "Icmp4Packet_build ty co ec_id ec_seq ec_raw_data un_raw_data echo n =
     (let (t, n') = Tracker_init TX echo n;
          p = icmp_blank t ty co 0
      in if ty = PyInt ICMP4_ECHOREPLY \<and> co = 0 then
           (p\<lparr>icmpv4_ec_id := Some ec_id, icmpv4_ec_seq := Some ec_seq,
              icmpv4_ec_raw_data := Some ec_raw_data\<rparr>, n')
         else if ty = PyInt ICMP4_UNREACHABLE \<and> co = ICMP4_UNREACHABLE_PORT then
           (p\<lparr>icmpv4_un_reserved := Some 0,
              icmpv4_un_raw_data := Some (take 520 un_raw_data)\<rparr>, n')
         else if ty = PyInt ICMP4_ECHOREQUEST \<and> co = 0 then
           (p\<lparr>icmpv4_ec_id := Some ec_id, icmpv4_ec_seq := Some ec_seq,
              icmpv4_ec_raw_data := Some ec_raw_data\<rparr>, n')
         else (p, n'))"

text \<open>
  \<open>Icmp4Packet.__init__\<close>: a parent packet selects the parsing branch, which leaves the
  tracker counter alone.
\<close>

definition Icmp4Packet_init ::
  "ParentPacket option \<Rightarrow> pyint \<Rightarrow> int \<Rightarrow> pyint \<Rightarrow> pyint \<Rightarrow> bytes \<Rightarrow> bytes
     \<Rightarrow> Tracker option \<Rightarrow> nat \<Rightarrow> (error + Icmp4Packet) \<times> nat" where
  "Icmp4Packet_init parent_packet ty co ec_id ec_seq ec_raw_data un_raw_data echo n =
     (case parent_packet of
        Some pp \<Rightarrow> (Icmp4Packet_parse pp, n)
      | None \<Rightarrow>
          (let (p, n') = Icmp4Packet_build ty co ec_id ec_seq ec_raw_data un_raw_data echo n
           in (Inr p, n')))"

text \<open>The property \<open>raw_packet\<close>. Attributes are read before \<open>struct.pack\<close> runs.\<close>

definition icmp_raw_echo :: "Icmp4Packet \<Rightarrow> error + bytes" where
  "icmp_raw_echo p =
     bind_err (getattr (icmpv4_ec_id p)) (\<lambda>ec_id.
     bind_err (getattr (icmpv4_ec_seq p)) (\<lambda>ec_seq.
     bind_err (pack_all [pack_B (icmpv4_type p), pack_B (PyInt (icmpv4_code p)),
                         pack_H (PyInt (icmpv4_cksum p)), pack_H ec_id, pack_H ec_seq])
       (\<lambda>hdr.
     bind_err (getattr (icmpv4_ec_raw_data p)) (\<lambda>d. Inr (hdr @ d)))))"

definition icmp_raw_packet :: "Icmp4Packet \<Rightarrow> error + bytes" where
  "icmp_raw_packet p =
     (if icmpv4_type p = PyInt ICMP4_ECHOREPLY then icmp_raw_echo p
      else if icmpv4_type p = PyInt ICMP4_UNREACHABLE
              \<and> icmpv4_code p = ICMP4_UNREACHABLE_PORT then
        bind_err (getattr (icmpv4_un_reserved p)) (\<lambda>un_reserved.
        bind_err (pack_all [pack_B (icmpv4_type p), pack_B (PyInt (icmpv4_code p)),
                            pack_H (PyInt (icmpv4_cksum p)), pack_L (PyInt un_reserved)])
          (\<lambda>hdr.
        bind_err (getattr (icmpv4_un_raw_data p)) (\<lambda>d. Inr (hdr @ d))))
      else if icmpv4_type p = PyInt ICMP4_ECHOREQUEST then icmp_raw_echo p
      else
        bind_err (pack_all [pack_B (icmpv4_type p), pack_B (PyInt (icmpv4_code p)),
                            pack_H (PyInt (icmpv4_cksum p))]) (\<lambda>hdr.
        bind_err (getattr (unknown_message p)) (\<lambda>d. Inr (hdr @ d))))"

text \<open>
  \<open>get_raw_packet\<close> stores the checksum and serializes again. The function
  \<open>inet_cksum.compute_cksum\<close> is not among the sources: it is the parameter \<open>ck\<close>.
\<close>

definition icmp_get_raw_packet ::
  "(bytes \<Rightarrow> int) \<Rightarrow> Icmp4Packet \<Rightarrow> error + (Icmp4Packet \<times> bytes)" where
  "icmp_get_raw_packet ck p =
     bind_err (icmp_raw_packet p) (\<lambda>raw.
     let p' = p\<lparr>icmpv4_cksum := ck raw\<rparr> in
     bind_err (icmp_raw_packet p') (\<lambda>raw'. Inr (p', raw')))"

section \<open>UDP (ps\_udp.py)\<close>

definition UDP_HEADER_LEN :: nat where "UDP_HEADER_LEN = 8"

text \<open>The attribute \<open>ip_pseudo_header\<close> is assigned on the parsing branch only.\<close>

record UdpPacket =
  udp_tracker :: Tracker
  udp_sport :: pyint
  udp_dport :: pyint
  udp_len :: int
  udp_cksum :: int
  raw_data :: bytes
  ip_pseudo_header :: "bytes option"

text \<open>The parsing branch of \<open>UdpPacket.__init__\<close>, in the order of its assignments.\<close>

definition UdpPacket_parse :: "ParentPacket \<Rightarrow> error + UdpPacket" where
  "UdpPacket_parse parent_packet =
     (let raw_packet = pp_raw_data parent_packet;
          raw_header = take UDP_HEADER_LEN raw_packet
      in
      bind_err (unpack_H (slice 4 6 raw_header)) (\<lambda>stop.
      let data = slice UDP_HEADER_LEN (nat stop) raw_packet in
      bind_err (unpack_H (slice 0 2 raw_header)) (\<lambda>sport.
      bind_err (unpack_H (slice 2 4 raw_header)) (\<lambda>dport.
      bind_err (unpack_H (slice 4 6 raw_header)) (\<lambda>len.
      bind_err (unpack_H (slice 6 8 raw_header)) (\<lambda>cksum.
      Inr \<lparr>udp_tracker = pp_tracker parent_packet, udp_sport = PyInt sport,
           udp_dport = PyInt dport, udp_len = len, udp_cksum = cksum, raw_data = data,
           ip_pseudo_header = Some (pp_ip_pseudo_header parent_packet)\<rparr>))))))"

text \<open>
  The building branch: the tracker is created first, then \<open>len(raw_data)\<close> raises
  \<open>TypeError\<close> when the payload was left at its default \<open>None\<close>.
\<close>

definition UdpPacket_build ::
  "pyint \<Rightarrow> pyint \<Rightarrow> bytes option \<Rightarrow> Tracker option \<Rightarrow> nat \<Rightarrow> (error + UdpPacket) \<times> nat" where
  "UdpPacket_build sport dport data echo n =
     (let (t, n') = Tracker_init TX echo n
      in case data of
           None \<Rightarrow> (Inl TypeError, n')
         | Some d \<Rightarrow>
             (Inr \<lparr>udp_tracker = t, udp_sport = sport, udp_dport = dport,
                   udp_len = int UDP_HEADER_LEN + int (length d), udp_cksum = 0,
                   raw_data = d, ip_pseudo_header = None\<rparr>, n'))"

definition UdpPacket_init ::
  "ParentPacket option \<Rightarrow> pyint \<Rightarrow> pyint \<Rightarrow> bytes option \<Rightarrow> Tracker option \<Rightarrow> nat
     \<Rightarrow> (error + UdpPacket) \<times> nat" where
  "UdpPacket_init parent_packet sport dport data echo n =
     (case parent_packet of
        Some pp \<Rightarrow> (UdpPacket_parse pp, n)
      | None \<Rightarrow> UdpPacket_build sport dport data echo n)"

text \<open>The properties \<open>raw_header\<close> and \<open>raw_packet\<close>.\<close>

definition udp_raw_header :: "UdpPacket \<Rightarrow> error + bytes" where
  "udp_raw_header p =
     pack_all [pack_H (udp_sport p), pack_H (udp_dport p),
               pack_H (PyInt (udp_len p)), pack_H (PyInt (udp_cksum p))]"

definition udp_raw_packet :: "UdpPacket \<Rightarrow> error + bytes" where
  "udp_raw_packet p = bind_err (udp_raw_header p) (\<lambda>h. Inr (h @ raw_data p))"

text \<open>
  The last line of \<open>compute_cksum\<close>:
  \<open>~((cksum & 0xFFFF) + (cksum >> 16)) & 0xFFFF\<close>.
\<close>

definition cksum_fold :: "int \<Rightarrow> int" where
  "cksum_fold cksum = (NOT ((cksum AND 0xFFFF) + drop_bit 16 cksum)) AND 0xFFFF"

text \<open>
  \<open>compute_cksum\<close>: the pad byte is appended when the packet has odd size, the buffer is
  unpacked into 16-bit words, the word at index \<open>6 + 3\<close> is overwritten with zero
  (\<open>IndexError\<close> when there are fewer than ten words), and the sum is folded.
\<close>

definition compute_cksum :: "UdpPacket \<Rightarrow> bytes \<Rightarrow> error + int" where
  "compute_cksum p pseudo =
     bind_err (udp_raw_packet p) (\<lambda>raw.
     let cksum_data = pseudo @ raw @ (if odd (length raw) then [0] else []) in
     bind_err (unpack_words cksum_data) (\<lambda>ws.
     if 6 + 3 < length ws then Inr (cksum_fold (sum_list (ws[6 + 3 := 0])))
     else Inl IndexError))"

definition udp_get_raw_packet :: "UdpPacket \<Rightarrow> bytes \<Rightarrow> error + (UdpPacket \<times> bytes)" where
  "udp_get_raw_packet p pseudo =
     bind_err (compute_cksum p pseudo) (\<lambda>c.
     let p' = p\<lparr>udp_cksum := c\<rparr> in
     bind_err (udp_raw_packet p') (\<lambda>raw. Inr (p', raw)))"

section \<open>Notions used in the statements\<close>

text \<open>The two octets of a 16-bit field in network order, and the range of such a field.\<close>

definition be16 :: "int \<Rightarrow> bytes" where
  "be16 n = [word_of_int (n div 256), word_of_int n]"

definition u16 :: "int \<Rightarrow> bool" where
  "u16 n \<longleftrightarrow> 0 \<le> n \<and> n \<le> 0xFFFF"

text \<open>
  The 16-bit one's-complement sum, as the specification names it: addition of 16-bit
  words with end-around carry. In this arithmetic \<open>0xFFFF\<close> is the second
  representation of zero, and it is the value a valid checksum makes the sum over the
  checksummed data take.
\<close>

definition ones_add :: "int \<Rightarrow> int \<Rightarrow> int" where
  "ones_add a b = (let t = a + b in if 0xFFFF < t then t - 0xFFFF else t)"

definition ones_sum :: "int list \<Rightarrow> int" where
  "ones_sum ws = foldl ones_add 0 ws"

section \<open>Basic facts about the byte codecs\<close>

lemma bind_err_Inr_iff:
  "bind_err m f = Inr y \<longleftrightarrow> (\<exists>x. m = Inr x \<and> f x = Inr y)"
  by (cases m) (simp_all add: bind_err_def)

lemma bind_err_simps:
  "bind_err (Inl e) f = Inl e" "bind_err (Inr x) f = f x"
  by (simp_all add: bind_err_def)

lemma unpack_L_wrong_size: "length b \<noteq> 4 \<Longrightarrow> unpack_L b = Inl StructError"
  by (cases b rule: unpack_L.cases) simp_all

lemma unpack_H_wrong_size: "length b \<noteq> 2 \<Longrightarrow> unpack_H b = Inl StructError"
  by (cases b rule: unpack_H.cases) simp_all

lemma unpack_H_Inr_iff:
  "unpack_H b = Inr v \<longleftrightarrow> (\<exists>x y. b = [x, y] \<and> v = uint x * 256 + uint y)"
  by (cases b rule: unpack_H.cases) auto

lemma uint8_range: "0 \<le> uint (x :: 8 word) \<and> uint x \<le> 255"
  using uint_bounded [of x] by simp

lemma unpack_H_range: "unpack_H b = Inr v \<Longrightarrow> 0 \<le> v \<and> v \<le> 0xFFFF"
  using uint8_range by (auto simp: unpack_H_Inr_iff) (smt (verit) uint8_range)

lemma word8_hi: "word_of_int ((uint (x :: 8 word) * 256 + uint (y :: 8 word)) div 256) = x"
proof -
  have "(uint x * 256 + uint y) div 256 = uint x"
    using uint8_range [of y] by simp
  then show ?thesis by simp
qed

lemma uint_word8_of_int: "uint (word_of_int k :: 8 word) = k mod 256"
  by (simp add: uint_word_of_int take_bit_eq_mod)

lemma word8_lo: "(word_of_int (uint (x :: 8 word) * 256 + uint (y :: 8 word)) :: 8 word) = y"
proof -
  have "uint (word_of_int (uint x * 256 + uint y) :: 8 word) = (uint x * 256 + uint y) mod 256"
    by (rule uint_word8_of_int)
  also have "\<dots> = uint y"
    using uint8_range [of y] by simp
  finally show ?thesis
    unfolding word_uint_eq_iff .
qed

lemma pack_unpack_H:
  assumes "unpack_H b = Inr v"
  shows "pack_H (PyInt v) = Inr b"
proof -
  from assms obtain x y where b: "b = [x, y]" and v: "v = uint x * 256 + uint y"
    by (auto simp: unpack_H_Inr_iff)
  have r: "0 \<le> v \<and> v \<le> 0xFFFF"
    using assms by (rule unpack_H_range)
  have "word_of_int (v div 256) = x" "word_of_int v = y"
    unfolding v by (rule word8_hi, rule word8_lo)
  with r b show ?thesis
    by (simp add: pack_H_def)
qed

lemma unpack_pack_H:
  assumes "pack_H v = Inr b"
  shows "\<exists>n. v = PyInt n \<and> 0 \<le> n \<and> n \<le> 0xFFFF \<and> unpack_H b = Inr n"
proof (cases v)
  case PyNone
  with assms show ?thesis by (simp add: pack_H_def)
next
  case (PyInt n)
  with assms have r: "0 \<le> n" "n \<le> 0xFFFF"
    and b: "b = [word_of_int (n div 256), word_of_int n]"
    by (auto simp: pack_H_def split: if_splits)
  have hi: "uint (word_of_int (n div 256) :: 8 word) = n div 256"
    using r by (simp add: uint_word_of_int take_bit_eq_mod)
  have lo: "uint (word_of_int n :: 8 word) = n mod 256"
    by (simp add: uint_word_of_int take_bit_eq_mod)
  show ?thesis using PyInt r b hi lo by simp
qed

lemma pack_B_index: "pack_B (PyInt (uint (x :: 8 word))) = Inr [x]"
  using uint8_range [of x] by (simp add: pack_B_def)

lemma length_slice: "length (slice i j b) = min j (length b) - i"
  by (simp add: slice_def)

lemma pack_H_Inr_iff:
  "pack_H v = Inr b \<longleftrightarrow> (\<exists>n. v = PyInt n \<and> u16 n \<and> b = be16 n)"
  by (cases v) (auto simp: pack_H_def be16_def u16_def)

lemma pack_H_PyInt: "pack_H (PyInt n) = (if u16 n then Inr (be16 n) else Inl StructError)"
  by (simp add: pack_H_def be16_def u16_def)

lemma length_be16 [simp]: "length (be16 n) = 2"
  by (simp add: be16_def)

lemma unpack_H_be16: "u16 n \<Longrightarrow> unpack_H (be16 n) = Inr n"
  using unpack_pack_H [of "PyInt n" "be16 n"] by (simp add: pack_H_PyInt)

lemma be16_zero [simp]: "be16 0 = [0, 0]"
  by (simp add: be16_def)

lemma slice_eq_map_nth: "slice i j b = map ((!) b) [i ..< min j (length b)]"
proof (rule nth_equalityI)
  show "length (slice i j b) = length (map ((!) b) [i ..< min j (length b)])"
    by (simp add: slice_def)
next
  fix k assume "k < length (slice i j b)"
  then have k: "i + k < min j (length b)"
    by (auto simp: slice_def)
  then have "k < length [i ..< min j (length b)]"
    and "[i ..< min j (length b)] ! k = i + k"
    by (simp_all add: less_diff_conv add.commute)
  then have "map ((!) b) [i ..< min j (length b)] ! k = b ! (i + k)"
    by (simp only: nth_map)
  moreover have "slice i j b ! k = b ! (i + k)"
    using k by (simp add: slice_def)
  ultimately show "slice i j b ! k = map ((!) b) [i ..< min j (length b)] ! k"
    by simp
qed

lemma slice_pair:
  assumes "Suc (Suc i) \<le> length b"
  shows "slice i (Suc (Suc i)) b = [b ! i, b ! Suc i]"
proof -
  have "[i ..< Suc (Suc i)] = [i, Suc i]"
    by (simp add: upt_rec)
  with assms show ?thesis
    by (simp add: slice_eq_map_nth min_def)
qed

lemma unpack_H_slice:
  assumes "j = i + 2" "j \<le> length b"
  shows "unpack_H (slice i j b) = Inr (uint (b ! i) * 256 + uint (b ! Suc i))"
  using assms slice_pair [of i b] by simp

section \<open>ICMPv4 parsing of Destination Unreachable\<close>

text \<open>
  The parsing branch hands the two-byte slice \<open>raw_packet[4:6]\<close> to the four-byte format
  \<open>"!L"\<close>, so every message of type 3 that reaches this line raises \<open>struct.error\<close>.
\<close>

lemma icmp_parse_unreachable_fails:
  assumes "index (pp_raw_data parent_packet) 0 = Inr ICMP4_UNREACHABLE"
  shows "\<exists>e. Icmp4Packet_parse parent_packet = Inl e"
proof -
  have "unpack_L (slice 4 6 (pp_raw_data parent_packet)) = Inl StructError"
    by (rule unpack_L_wrong_size) (simp add: length_slice)
  then show ?thesis
    using assms
    by (auto simp: Icmp4Packet_parse_def Let_def bind_err_def ICMP4_UNREACHABLE_def
        ICMP4_ECHOREPLY_def split: sum.splits)
qed

text \<open>
  Claim C1. An inbound message of type 3 with an 8-byte buffer should parse, with the
  reserved field read from offsets 4..8 and the quoted data from offset 8 on. On the
  8-byte message \<open>03 03 00 00 00 00 00 00\<close> the constructor raises \<open>struct.error\<close>
  instead.
\<close>

theorem icmp_parse_unreachable_raises:
  "Icmp4Packet_parse \<lparr>pp_tracker = Tracker RX 0 None,
       pp_raw_data = [3, 3, 0, 0, 0, 0, 0, 0], pp_ip_pseudo_header = []\<rparr>
     = Inl StructError"
  by (simp add: Icmp4Packet_parse_def index_def bind_err_def slice_def
      ICMP4_ECHOREPLY_def ICMP4_UNREACHABLE_def)

section \<open>UDP serialization\<close>

lemma udp_raw_header_Inr_iff:
  "udp_raw_header p = Inr h \<longleftrightarrow>
     (\<exists>s d. udp_sport p = PyInt s \<and> udp_dport p = PyInt d \<and> u16 s \<and> u16 d
         \<and> u16 (udp_len p) \<and> u16 (udp_cksum p)
         \<and> h = be16 s @ be16 d @ be16 (udp_len p) @ be16 (udp_cksum p))"
  by (auto simp: udp_raw_header_def bind_err_Inr_iff pack_H_Inr_iff)

lemma udp_raw_packet_Inr_iff:
  "udp_raw_packet p = Inr raw \<longleftrightarrow>
     (\<exists>s d. udp_sport p = PyInt s \<and> udp_dport p = PyInt d \<and> u16 s \<and> u16 d
         \<and> u16 (udp_len p) \<and> u16 (udp_cksum p)
         \<and> raw = be16 s @ be16 d @ be16 (udp_len p) @ be16 (udp_cksum p) @ raw_data p)"
  by (auto simp: udp_raw_packet_def bind_err_Inr_iff udp_raw_header_Inr_iff)

lemma udp_raw_packet_cksum_update:
  assumes "udp_raw_packet p = Inr raw" "u16 c"
  shows "udp_raw_packet (p\<lparr>udp_cksum := c\<rparr>) = Inr (take 6 raw @ be16 c @ drop 8 raw)"
  using assms by (auto simp: udp_raw_packet_Inr_iff)

section \<open>ICMPv4 packets built for emission\<close>

lemma icmp_build_unreachable:
  "Icmp4Packet_build (PyInt ICMP4_UNREACHABLE) ICMP4_UNREACHABLE_PORT ec_id ec_seq ec_raw d echo n
     = ((icmp_blank (Tracker TX n echo) (PyInt 3) 3 0)
          \<lparr>icmpv4_un_reserved := Some 0, icmpv4_un_raw_data := Some (take 520 d)\<rparr>, Suc n)"
  by (simp add: Icmp4Packet_build_def Tracker_init_def ICMP4_UNREACHABLE_def
      ICMP4_UNREACHABLE_PORT_def ICMP4_ECHOREPLY_def)

lemma icmp_raw_packet_unreachable:
  assumes "icmpv4_type p = PyInt 3" "icmpv4_code p = 3" "0 \<le> icmpv4_cksum p" "icmpv4_cksum p \<le> 0xFFFF"
    "icmpv4_un_reserved p = Some 0" "icmpv4_un_raw_data p = Some d"
  shows "icmp_raw_packet p =
    Inr ([3, 3, word_of_int (icmpv4_cksum p div 256), word_of_int (icmpv4_cksum p), 0, 0, 0, 0] @ d)"
  using assms
  by (simp add: icmp_raw_packet_def ICMP4_ECHOREPLY_def ICMP4_UNREACHABLE_def
      ICMP4_UNREACHABLE_PORT_def getattr_def bind_err_def pack_B_def pack_H_def pack_L_def)

lemma icmp_raw_packet_cksum_range:
  assumes "icmp_raw_packet p = Inr raw"
  shows "0 \<le> icmpv4_cksum p \<and> icmpv4_cksum p \<le> 0xFFFF"
  using assms
  by (auto simp: icmp_raw_packet_def icmp_raw_echo_def bind_err_Inr_iff pack_H_def
      split: if_splits)

text \<open>
  Claim C6. A Destination Unreachable message built for emission (type 3, code 3) stores
  the first 520 bytes of the datagram it is given: the stored data field is a prefix of
  that datagram of at most 520 bytes, \<open>raw_packet\<close> is the 8-byte header followed by it,
  and whatever checksum function is supplied, a successful \<open>get_raw_packet\<close> leaves
  the field alone and returns it after the header.
\<close>

theorem icmp_unreachable_data_truncated:
  assumes "Icmp4Packet_build (PyInt ICMP4_UNREACHABLE) ICMP4_UNREACHABLE_PORT
             ec_id ec_seq ec_raw d echo n = (p, n')"
  shows "\<exists>data. icmpv4_un_raw_data p = Some data \<and> data = take 520 d
           \<and> length data \<le> 520 \<and> prefix data d
           \<and> icmp_raw_packet p = Inr ([3, 3, 0, 0, 0, 0, 0, 0] @ data)
           \<and> (\<forall>ck p' raw. icmp_get_raw_packet ck p = Inr (p', raw) \<longrightarrow>
                 icmpv4_un_raw_data p' = Some data \<and> length raw = 8 + length data
                 \<and> drop 8 raw = data)"
proof -
  let ?q = "(icmp_blank (Tracker TX n echo) (PyInt 3) 3 0)
          \<lparr>icmpv4_un_reserved := Some 0, icmpv4_un_raw_data := Some (take 520 d)\<rparr>"
  from assms have p: "p = ?q"
    by (simp add: icmp_build_unreachable)
  have raw: "icmp_raw_packet p = Inr ([3, 3, 0, 0, 0, 0, 0, 0] @ take 520 d)"
    unfolding p by (subst icmp_raw_packet_unreachable [where d = "take 520 d"])
      (simp_all add: icmp_blank_def)
  have get: "icmpv4_un_raw_data p' = Some (take 520 d) \<and> length raw = 8 + length (take 520 d)
      \<and> drop 8 raw = take 520 d"
    if "icmp_get_raw_packet ck p = Inr (p', raw)" for ck p' raw
  proof -
    from that raw have p': "p' = p\<lparr>icmpv4_cksum := ck ([3, 3, 0, 0, 0, 0, 0, 0] @ take 520 d)\<rparr>"
      and r: "icmp_raw_packet p' = Inr raw"
      by (auto simp: icmp_get_raw_packet_def bind_err_Inr_iff Let_def)
    from r have rng: "0 \<le> icmpv4_cksum p'" "icmpv4_cksum p' \<le> 0xFFFF"
      using icmp_raw_packet_cksum_range by blast+
    have "icmp_raw_packet p' =
      Inr ([3, 3, word_of_int (icmpv4_cksum p' div 256), word_of_int (icmpv4_cksum p'), 0, 0, 0, 0]
            @ take 520 d)"
      using rng by (intro icmp_raw_packet_unreachable) (simp_all add: p' p icmp_blank_def)
    with r show ?thesis by (auto simp: p' p)
  qed
  show ?thesis
    using raw get by (simp add: p take_is_prefix)
qed

theorem icmp_unreachable_data_truncated_witness:
  "(let (p, n') = Icmp4Packet_build (PyInt ICMP4_UNREACHABLE) ICMP4_UNREACHABLE_PORT
                    PyNone PyNone [] (replicate 600 7) None 0
    in icmpv4_un_raw_data p = Some (replicate 520 7)
       \<and> icmp_raw_packet p = Inr ([3, 3, 0, 0, 0, 0, 0, 0] @ replicate 520 7)
       \<and> icmp_get_raw_packet (\<lambda>b. 4660) p
           = Inr (p\<lparr>icmpv4_cksum := 4660\<rparr>, [3, 3, 18, 52, 0, 0, 0, 0] @ replicate 520 7))"
proof -
  obtain p n' where b: "Icmp4Packet_build (PyInt ICMP4_UNREACHABLE) ICMP4_UNREACHABLE_PORT
                    PyNone PyNone [] (replicate 600 7) None 0 = (p, n')"
    by (cases "Icmp4Packet_build (PyInt ICMP4_UNREACHABLE) ICMP4_UNREACHABLE_PORT
                    PyNone PyNone [] (replicate 600 (7 :: 8 word)) None 0") 
  from icmp_unreachable_data_truncated [OF b]
  have d: "icmpv4_un_raw_data p = Some (replicate 520 7)"
    and r: "icmp_raw_packet p = Inr ([3, 3, 0, 0, 0, 0, 0, 0] @ replicate 520 7)"
    by simp_all
  have ty: "icmpv4_type p = PyInt 3" "icmpv4_code p = 3" "icmpv4_un_reserved p = Some 0"
    using b by (auto simp: icmp_build_unreachable icmp_blank_def)
  have "icmp_raw_packet (p\<lparr>icmpv4_cksum := 4660\<rparr>)
      = Inr ([3, 3, 18, 52, 0, 0, 0, 0] @ replicate 520 7)"
    by (subst icmp_raw_packet_unreachable [where d = "replicate 520 7"]) (simp_all add: ty d)
  then have "icmp_get_raw_packet (\<lambda>b. 4660) p
           = Inr (p\<lparr>icmpv4_cksum := 4660\<rparr>, [3, 3, 18, 52, 0, 0, 0, 0] @ replicate 520 7)"
    using r by (simp add: icmp_get_raw_packet_def bind_err_def)
  with d r b show ?thesis by simp
qed

section \<open>ICMPv4 packets of other types cannot be emitted\<close>

lemma icmp_build_cases:
  "Icmp4Packet_build ty co ec_id ec_seq ec_raw un_raw echo n =
     (if (ty = PyInt ICMP4_ECHOREPLY \<or> ty = PyInt ICMP4_ECHOREQUEST) \<and> co = 0 then
        ((icmp_blank (Tracker TX n echo) ty co 0)
           \<lparr>icmpv4_ec_id := Some ec_id, icmpv4_ec_seq := Some ec_seq,
            icmpv4_ec_raw_data := Some ec_raw\<rparr>, Suc n)
      else if ty = PyInt ICMP4_UNREACHABLE \<and> co = ICMP4_UNREACHABLE_PORT then
        ((icmp_blank (Tracker TX n echo) ty co 0)
           \<lparr>icmpv4_un_reserved := Some 0, icmpv4_un_raw_data := Some (take 520 un_raw)\<rparr>,
         Suc n)
      else (icmp_blank (Tracker TX n echo) ty co 0, Suc n))"
proof -
  have t: "Tracker_init TX echo n = (Tracker TX n echo, Suc n)"
    by (simp add: Tracker_init_def)
  show ?thesis
    unfolding Icmp4Packet_build_def t Let_def prod.case ICMP4_UNREACHABLE_def
      ICMP4_UNREACHABLE_PORT_def ICMP4_ECHOREPLY_def ICMP4_ECHOREQUEST_def
    by (cases "ty = PyInt 0"; cases "ty = PyInt 8"; cases "ty = PyInt 3"; cases "co = 0";
        cases "co = 3"; simp only: if_True if_False simp_thms pyint.inject)
qed

lemma icmp_raw_packet_needs_body:
  assumes "icmp_raw_packet p = Inr raw"
  shows "icmpv4_ec_id p \<noteq> None \<or> icmpv4_un_reserved p \<noteq> None \<or> unknown_message p \<noteq> None"
  using assms
  by (auto simp: icmp_raw_packet_def icmp_raw_echo_def bind_err_Inr_iff getattr_def
      split: if_splits option.splits)

lemma not_Inr_is_Inl: "(\<forall>y. x \<noteq> Inr y) \<Longrightarrow> \<exists>e. x = Inl e"
  by (cases x) auto

text \<open>
  Claim C9. A packet built with a (type, code) pair other than (0,0), (3,3) and (8,0)
  has none of the message body attributes, \<open>unknown_message\<close> included, and both
  \<open>raw_packet\<close> and \<open>get_raw_packet\<close> raise whatever checksum function is supplied.
\<close>

theorem icmp_build_other_type_not_emitted:
  assumes "(ty, co) \<notin> {(PyInt ICMP4_ECHOREPLY, 0),
                        (PyInt ICMP4_UNREACHABLE, ICMP4_UNREACHABLE_PORT),
                        (PyInt ICMP4_ECHOREQUEST, 0)}"
    and "Icmp4Packet_build ty co ec_id ec_seq ec_raw un_raw echo n = (p, n')"
  shows "icmpv4_ec_id p = None \<and> icmpv4_ec_seq p = None \<and> icmpv4_ec_raw_data p = None
         \<and> icmpv4_un_reserved p = None \<and> icmpv4_un_raw_data p = None
         \<and> unknown_message p = None
         \<and> (\<exists>e. icmp_raw_packet p = Inl e)
         \<and> (\<forall>ck. \<exists>e. icmp_get_raw_packet ck p = Inl e)"
proof -
  from assms have p: "p = icmp_blank (Tracker TX n echo) ty co 0"
    by (auto simp: icmp_build_cases split: if_splits)
  then have body: "icmpv4_ec_id p = None" "icmpv4_ec_seq p = None" "icmpv4_ec_raw_data p = None"
    "icmpv4_un_reserved p = None" "icmpv4_un_raw_data p = None" "unknown_message p = None"
    by (simp_all add: icmp_blank_def)
  then have "\<forall>raw. icmp_raw_packet p \<noteq> Inr raw"
    using icmp_raw_packet_needs_body by blast
  then obtain e where e: "icmp_raw_packet p = Inl e"
    using not_Inr_is_Inl by blast
  then have "icmp_get_raw_packet ck p = Inl e" for ck
    by (simp add: icmp_get_raw_packet_def bind_err_def)
  with body e show ?thesis by blast
qed

theorem icmp_build_other_type_not_emitted_witness:
  "(PyInt 3, 0) \<notin> {(PyInt ICMP4_ECHOREPLY, 0),
                     (PyInt ICMP4_UNREACHABLE, ICMP4_UNREACHABLE_PORT),
                     (PyInt ICMP4_ECHOREQUEST, 0)}
   \<and> unknown_message (fst (Icmp4Packet_build (PyInt 3) 0 PyNone PyNone [] [1, 2, 3] None 0)) = None
   \<and> icmp_raw_packet (fst (Icmp4Packet_build (PyInt 3) 0 PyNone PyNone [] [1, 2, 3] None 0))
       = Inl AttributeError
   \<and> (\<exists>e. icmp_get_raw_packet (\<lambda>b. 0)
               (fst (Icmp4Packet_build (PyInt 3) 0 PyNone PyNone [] [1, 2, 3] None 0)) = Inl e)"
proof -
  have h: "(PyInt 3, 0) \<notin> {(PyInt ICMP4_ECHOREPLY, 0),
                     (PyInt ICMP4_UNREACHABLE, ICMP4_UNREACHABLE_PORT),
                     (PyInt ICMP4_ECHOREQUEST, 0)}"
    by (simp add: ICMP4_ECHOREPLY_def ICMP4_UNREACHABLE_def ICMP4_UNREACHABLE_PORT_def
        ICMP4_ECHOREQUEST_def)
  have b: "Icmp4Packet_build (PyInt 3) 0 PyNone PyNone [] [1, 2, 3] None 0
      = (fst (Icmp4Packet_build (PyInt 3) 0 PyNone PyNone [] [1, 2, 3] None 0),
         snd (Icmp4Packet_build (PyInt 3) 0 PyNone PyNone [] [1, 2, 3] None 0))"
    by simp
  have r: "icmp_raw_packet (fst (Icmp4Packet_build (PyInt 3) 0 PyNone PyNone [] [1, 2, 3] None 0))
       = Inl AttributeError"
    by (simp add: icmp_build_cases icmp_raw_packet_def icmp_blank_def pack_B_def pack_H_def
        bind_err_def getattr_def ICMP4_ECHOREPLY_def ICMP4_UNREACHABLE_def
        ICMP4_UNREACHABLE_PORT_def ICMP4_ECHOREQUEST_def)
  from icmp_build_other_type_not_emitted [OF h b] h r show ?thesis
    by blast
qed

section \<open>Trackers\<close>

text \<open>
  Claim C8. On the building branch both constructors return a packet whose tracker is
  the one the \<open>Tracker\<close> constructor makes for \<open>TX\<close> and the supplied \<open>echo_tracker\<close>:
  its direction is \<open>TX\<close>, its back-link is \<open>echo_tracker\<close>, and its id is the value of
  the counter, which the call advances. On the parsing branch a packet that is
  constructed carries the tracker of the parent packet, and the counter is untouched.
\<close>

theorem packet_tracker:
  "(\<exists>p. Icmp4Packet_init None ty co ec_id ec_seq ec_raw un_raw echo n = (Inr p, Suc n)
        \<and> (icmp_tracker p, Suc n) = Tracker_init TX echo n
        \<and> direction (icmp_tracker p) = TX \<and> echo_tracker (icmp_tracker p) = echo
        \<and> serial (icmp_tracker p) = n)
   \<and> (\<exists>q. UdpPacket_init None sport dport (Some d) echo n = (Inr q, Suc n)
        \<and> (udp_tracker q, Suc n) = Tracker_init TX echo n
        \<and> direction (udp_tracker q) = TX \<and> echo_tracker (udp_tracker q) = echo
        \<and> serial (udp_tracker q) = n)
   \<and> (\<forall>p n'. Icmp4Packet_init (Some parent) ty co ec_id ec_seq ec_raw un_raw echo n = (Inr p, n')
        \<longrightarrow> icmp_tracker p = pp_tracker parent \<and> n' = n)
   \<and> (\<forall>q n'. UdpPacket_init (Some parent) sport dport data echo n = (Inr q, n')
        \<longrightarrow> udp_tracker q = pp_tracker parent \<and> n' = n)"
proof (intro conjI allI impI)
  show "\<exists>p. Icmp4Packet_init None ty co ec_id ec_seq ec_raw un_raw echo n = (Inr p, Suc n)
        \<and> (icmp_tracker p, Suc n) = Tracker_init TX echo n
        \<and> direction (icmp_tracker p) = TX \<and> echo_tracker (icmp_tracker p) = echo
        \<and> serial (icmp_tracker p) = n"
    by (simp add: Icmp4Packet_init_def icmp_build_cases icmp_blank_def Tracker_init_def)
next
  show "\<exists>q. UdpPacket_init None sport dport (Some d) echo n = (Inr q, Suc n)
        \<and> (udp_tracker q, Suc n) = Tracker_init TX echo n
        \<and> direction (udp_tracker q) = TX \<and> echo_tracker (udp_tracker q) = echo
        \<and> serial (udp_tracker q) = n"
    by (simp add: UdpPacket_init_def UdpPacket_build_def Tracker_init_def)
next
  fix p n'
  assume "Icmp4Packet_init (Some parent) ty co ec_id ec_seq ec_raw un_raw echo n = (Inr p, n')"
  then have "Icmp4Packet_parse parent = Inr p" and n: "n' = n"
    by (simp_all add: Icmp4Packet_init_def)
  then have "icmp_tracker p = pp_tracker parent"
    by (auto simp: Icmp4Packet_parse_def icmp_parse_echo_def bind_err_Inr_iff Let_def
        icmp_blank_def split: if_splits)
  with n show "icmp_tracker p = pp_tracker parent" "n' = n" by simp_all
next
  fix q n'
  assume "UdpPacket_init (Some parent) sport dport data echo n = (Inr q, n')"
  then have "UdpPacket_parse parent = Inr q" and n: "n' = n"
    by (simp_all add: UdpPacket_init_def)
  then have "udp_tracker q = pp_tracker parent"
    by (auto simp: UdpPacket_parse_def bind_err_Inr_iff Let_def)
  with n show "udp_tracker q = pp_tracker parent" "n' = n" by simp_all
qed

theorem packet_tracker_witness:
  "(\<exists>p. Icmp4Packet_init
          (Some \<lparr>pp_tracker = Tracker RX 5 None, pp_raw_data = [8, 0, 0, 0, 0, 1, 0, 2],
                 pp_ip_pseudo_header = []\<rparr>)
          PyNone 0 PyNone PyNone [] [] None 7 = (Inr p, 7)
        \<and> icmp_tracker p = Tracker RX 5 None)
   \<and> (\<exists>q. UdpPacket_init
          (Some \<lparr>pp_tracker = Tracker RX 5 None, pp_raw_data = [8, 0, 0, 0, 0, 1, 0, 2],
                 pp_ip_pseudo_header = []\<rparr>)
          PyNone PyNone None None 7 = (Inr q, 7)
        \<and> udp_tracker q = Tracker RX 5 None)
   \<and> (\<exists>p. Icmp4Packet_init None PyNone 0 PyNone PyNone [] [] None 7 = (Inr p, 8)
        \<and> icmp_tracker p = Tracker TX 7 None)
   \<and> (\<exists>q. UdpPacket_init None PyNone PyNone (Some []) None 7 = (Inr q, 8)
        \<and> udp_tracker q = Tracker TX 7 None)"
proof -
  let ?P = "\<lparr>pp_tracker = Tracker RX 5 None, pp_raw_data = [8, 0, 0, 0, 0, 1, 0, 2],
             pp_ip_pseudo_header = []\<rparr>"
  note t = packet_tracker [of PyNone 0 PyNone PyNone "[]" "[]" None 7 PyNone PyNone "[]" ?P None]
  obtain p where p: "Icmp4Packet_init (Some ?P) PyNone 0 PyNone PyNone [] [] None 7 = (Inr p, 7)"
    by (simp add: Icmp4Packet_init_def Icmp4Packet_parse_def icmp_parse_echo_def index_def
        slice_def bind_err_def ICMP4_ECHOREPLY_def ICMP4_UNREACHABLE_def ICMP4_ECHOREQUEST_def)
  obtain q where q: "UdpPacket_init (Some ?P) PyNone PyNone None None 7 = (Inr q, 7)"
    by (simp add: UdpPacket_init_def UdpPacket_parse_def slice_def bind_err_def
        UDP_HEADER_LEN_def)
  from t p have "icmp_tracker p = Tracker RX 5 None" by simp
  moreover from t q have "udp_tracker q = Tracker RX 5 None" by simp
  moreover from t have "\<exists>p. Icmp4Packet_init None PyNone 0 PyNone PyNone [] [] None 7 = (Inr p, 8)
        \<and> icmp_tracker p = Tracker TX 7 None"
    by (auto simp: Tracker_init_def)
  moreover from t have "\<exists>q. UdpPacket_init None PyNone PyNone (Some []) None 7 = (Inr q, 8)
        \<and> udp_tracker q = Tracker TX 7 None"
    by (auto simp: Tracker_init_def)
  ultimately show ?thesis using p q by blast
qed

section \<open>UDP parsing\<close>

lemma unpack_H_header:
  assumes "j = i + 2" "j \<le> 8" "8 \<le> length b"
  shows "unpack_H (slice i j (take 8 b)) = Inr (uint (b ! i) * 256 + uint (b ! Suc i))"
  using assms unpack_H_slice [of j i "take 8 b"] by simp

lemma udp_parse_Inr:
  assumes "8 \<le> length (pp_raw_data parent)"
  shows "UdpPacket_parse parent =
    Inr \<lparr>udp_tracker = pp_tracker parent,
         udp_sport = PyInt (uint (pp_raw_data parent ! 0) * 256 + uint (pp_raw_data parent ! 1)),
         udp_dport = PyInt (uint (pp_raw_data parent ! 2) * 256 + uint (pp_raw_data parent ! 3)),
         udp_len = uint (pp_raw_data parent ! 4) * 256 + uint (pp_raw_data parent ! 5),
         udp_cksum = uint (pp_raw_data parent ! 6) * 256 + uint (pp_raw_data parent ! 7),
         raw_data = slice 8 (nat (uint (pp_raw_data parent ! 4) * 256
                               + uint (pp_raw_data parent ! 5))) (pp_raw_data parent),
         ip_pseudo_header = Some (pp_ip_pseudo_header parent)\<rparr>"
proof -
  let ?b = "pp_raw_data parent"
  have "unpack_H (slice 0 2 (take 8 ?b)) = Inr (uint (?b ! 0) * 256 + uint (?b ! 1))"
    using unpack_H_header [of 2 0 ?b] assms by simp
  moreover have "unpack_H (slice 2 4 (take 8 ?b)) = Inr (uint (?b ! 2) * 256 + uint (?b ! 3))"
    using unpack_H_header [of 4 2 ?b] assms by simp
  moreover have "unpack_H (slice 4 6 (take 8 ?b)) = Inr (uint (?b ! 4) * 256 + uint (?b ! 5))"
    using unpack_H_header [of 6 4 ?b] assms by simp
  moreover have "unpack_H (slice 6 8 (take 8 ?b)) = Inr (uint (?b ! 6) * 256 + uint (?b ! 7))"
    using unpack_H_header [of 8 6 ?b] assms by simp
  ultimately show ?thesis
    by (simp add: UdpPacket_parse_def UDP_HEADER_LEN_def bind_err_def Let_def)
qed

lemma udp_parse_short:
  assumes "length (pp_raw_data parent) < 8"
  shows "UdpPacket_parse parent = Inl StructError"
proof -
  let ?h = "take 8 (pp_raw_data parent)"
  have "length (slice 6 8 ?h) \<noteq> 2"
    using assms by (simp add: length_slice)
  then have "unpack_H (slice 6 8 ?h) = Inl StructError"
    by (rule unpack_H_wrong_size)
  moreover have "e = StructError" if "unpack_H x = Inl e" for x e
    using that by (cases x rule: unpack_H.cases) simp_all
  ultimately show ?thesis
    by (auto simp: UdpPacket_parse_def UDP_HEADER_LEN_def bind_err_def Let_def
        split: sum.splits)
qed

text \<open>
  Claim C10. Parsing a UDP packet from a buffer \<open>b\<close> of at least 8 bytes raises nothing.
  With \<open>len\<close> the big-endian value of bytes 4 and 5, the payload is the bytes of \<open>b\<close> at
  the positions from 8 up to, but excluding, \<open>min len (length b)\<close>: bytes after the
  length field are left out, and a length field beyond the buffer yields the bytes that
  are there.
\<close>

theorem udp_parse_total:
  assumes "8 \<le> length (pp_raw_data parent)"
  shows "\<exists>p. UdpPacket_parse parent = Inr p
     \<and> udp_len p = uint (pp_raw_data parent ! 4) * 256 + uint (pp_raw_data parent ! 5)
     \<and> raw_data p = map ((!) (pp_raw_data parent))
                       [8 ..< min (nat (udp_len p)) (length (pp_raw_data parent))]
     \<and> (nat (udp_len p) \<le> length (pp_raw_data parent) \<longrightarrow>
           raw_data p = map ((!) (pp_raw_data parent)) [8 ..< nat (udp_len p)])
     \<and> (length (pp_raw_data parent) \<le> nat (udp_len p) \<longrightarrow>
           raw_data p = drop 8 (pp_raw_data parent))"
proof -
  let ?b = "pp_raw_data parent"
  let ?len = "uint (?b ! 4) * 256 + uint (?b ! 5)"
  from udp_parse_Inr [OF assms] obtain p where p: "UdpPacket_parse parent = Inr p"
    and len: "udp_len p = ?len" and d: "raw_data p = slice 8 (nat ?len) ?b"
    by simp
  have 1: "raw_data p = map ((!) ?b) [8 ..< min (nat (udp_len p)) (length ?b)]"
    by (simp add: d len slice_eq_map_nth)
  have 2: "raw_data p = map ((!) ?b) [8 ..< nat (udp_len p)]" if "nat (udp_len p) \<le> length ?b"
    using that 1 by (simp add: min_def)
  have 3: "raw_data p = drop 8 ?b" if "length ?b \<le> nat (udp_len p)"
    using that by (simp add: d len slice_def)
  from p len 1 2 3 show ?thesis by blast
qed

theorem udp_parse_total_witness:
  "UdpPacket_parse \<lparr>pp_tracker = Tracker RX 0 None,
       pp_raw_data = [0, 7, 19, 136, 0, 10, 0, 0, 104, 105, 0, 0, 0], pp_ip_pseudo_header = []\<rparr>
     = Inr \<lparr>udp_tracker = Tracker RX 0 None, udp_sport = PyInt 7, udp_dport = PyInt 5000,
            udp_len = 10, udp_cksum = 0, raw_data = [104, 105], ip_pseudo_header = Some []\<rparr>
   \<and> (\<exists>p. UdpPacket_parse \<lparr>pp_tracker = Tracker RX 0 None,
              pp_raw_data = [0, 7, 19, 136, 0, 99, 0, 0, 104, 105], pp_ip_pseudo_header = []\<rparr>
            = Inr p \<and> udp_len p = 99 \<and> raw_data p = [104, 105])"
proof -
  let ?P = "\<lparr>pp_tracker = Tracker RX 0 None,
       pp_raw_data = [0, 7, 19, 136, 0, 10, 0, 0, 104, 105, 0, 0, 0], pp_ip_pseudo_header = []\<rparr>"
  let ?Q = "\<lparr>pp_tracker = Tracker RX 0 None,
              pp_raw_data = [0, 7, 19, 136, 0, 99, 0, 0, 104, 105], pp_ip_pseudo_header = []\<rparr>"
  have a: "8 \<le> length (pp_raw_data ?P)" and b: "8 \<le> length (pp_raw_data ?Q)"
    by simp_all
  have "UdpPacket_parse ?P
     = Inr \<lparr>udp_tracker = Tracker RX 0 None, udp_sport = PyInt 7, udp_dport = PyInt 5000,
            udp_len = 10, udp_cksum = 0, raw_data = [104, 105], ip_pseudo_header = Some []\<rparr>"
    using udp_parse_total [OF a]
    by (simp add: UdpPacket_parse_def UDP_HEADER_LEN_def slice_def bind_err_def)
  moreover from udp_parse_total [OF b]
  have "\<exists>p. UdpPacket_parse ?Q = Inr p \<and> udp_len p = 99 \<and> raw_data p = [104, 105]"
    by auto
  ultimately show ?thesis by blast
qed

section \<open>The UDP length field\<close>

text \<open>
  Claim C5. A UDP packet built from explicit fields has \<open>udp_len = 8 + len(raw_data)\<close>.
  Its serializations, by \<open>raw_packet\<close> and by \<open>get_raw_packet\<close>, are 8 bytes longer than
  the payload, end in the payload, and carry their own size in the length field at
  offsets 4..6. Serialization succeeds exactly when both ports are 16-bit integers and
  the payload has at most 65527 bytes.
\<close>

theorem udp_build_length:
  assumes "UdpPacket_build sport dport (Some d) echo n = (Inr p, n')"
  shows "udp_len p = 8 + int (length d) \<and> raw_data p = d
     \<and> ((\<exists>raw. udp_raw_packet p = Inr raw) \<longleftrightarrow>
          (\<exists>s t. sport = PyInt s \<and> dport = PyInt t \<and> u16 s \<and> u16 t \<and> length d \<le> 65527))
     \<and> (\<forall>raw. udp_raw_packet p = Inr raw \<longrightarrow>
           length raw = 8 + length d \<and> drop 8 raw = d
           \<and> unpack_H (slice 4 6 raw) = Inr (int (length raw)))
     \<and> (\<forall>pseudo p' raw. udp_get_raw_packet p pseudo = Inr (p', raw) \<longrightarrow>
           udp_len p' = 8 + int (length d) \<and> raw_data p' = d
           \<and> length raw = 8 + length d \<and> drop 8 raw = d
           \<and> unpack_H (slice 4 6 raw) = Inr (int (length raw)))"
proof -
  from assms have p: "p = \<lparr>udp_tracker = Tracker TX n echo, udp_sport = sport, udp_dport = dport,
      udp_len = 8 + int (length d), udp_cksum = 0, raw_data = d, ip_pseudo_header = None\<rparr>"
    by (auto simp: UdpPacket_build_def Tracker_init_def UDP_HEADER_LEN_def)
  have ser: "length raw = 8 + length (raw_data q) \<and> drop 8 raw = raw_data q
      \<and> unpack_H (slice 4 6 raw) = Inr (udp_len q)"
    if "udp_raw_packet q = Inr raw" for q raw
  proof -
    from that obtain s t where raw: "raw = be16 s @ be16 t @ be16 (udp_len q) @ be16 (udp_cksum q) @ raw_data q"
      and l: "u16 (udp_len q)"
      by (auto simp: udp_raw_packet_Inr_iff)
    have "slice 4 6 raw = be16 (udp_len q)"
      by (simp add: raw slice_def)
    with l raw show ?thesis by (simp add: unpack_H_be16)
  qed
  have "u16 (8 + int (length d)) \<longleftrightarrow> length d \<le> 65527"
    by (auto simp: u16_def)
  moreover have "u16 0"
    by (simp add: u16_def)
  ultimately have 1: "(\<exists>raw. udp_raw_packet p = Inr raw) \<longleftrightarrow>
          (\<exists>s t. sport = PyInt s \<and> dport = PyInt t \<and> u16 s \<and> u16 t \<and> length d \<le> 65527)"
    by (simp add: udp_raw_packet_Inr_iff p) blast
  have 2: "length raw = 8 + length d \<and> drop 8 raw = d
           \<and> unpack_H (slice 4 6 raw) = Inr (int (length raw))"
    if "udp_raw_packet p = Inr raw" for raw
    using ser [OF that] by (simp add: p)
  have 3: "udp_len p' = 8 + int (length d) \<and> raw_data p' = d
           \<and> length raw = 8 + length d \<and> drop 8 raw = d
           \<and> unpack_H (slice 4 6 raw) = Inr (int (length raw))"
    if "udp_get_raw_packet p pseudo = Inr (p', raw)" for pseudo p' raw
  proof -
    from that obtain c where "p' = p\<lparr>udp_cksum := c\<rparr>" "udp_raw_packet p' = Inr raw"
      by (auto simp: udp_get_raw_packet_def bind_err_Inr_iff Let_def)
    then show ?thesis using ser [of p' raw] by (simp add: p)
  qed
  have 0: "udp_len p = 8 + int (length d) \<and> raw_data p = d"
    by (simp add: p)
  from 0 1 2 3 show ?thesis
    by blast
qed

theorem udp_build_length_witness:
  "\<exists>p. UdpPacket_build (PyInt 5000) (PyInt 7) (Some [112, 105, 110, 103]) None 0 = (Inr p, 1)
      \<and> udp_len p = 12
      \<and> udp_raw_packet p = Inr [19, 136, 0, 7, 0, 12, 0, 0, 112, 105, 110, 103]
      \<and> unpack_H (slice 4 6 [19, 136, 0, 7, 0, 12, 0, 0, 112, 105, 110, 103]) = Inr 12
      \<and> (\<exists>p' raw. udp_get_raw_packet p [192, 168, 9, 7, 192, 168, 9, 1, 0, 17, 0, 12]
                      = Inr (p', raw)
             \<and> udp_len p' = 12 \<and> length raw = 12 \<and> unpack_H (slice 4 6 raw) = Inr 12)"
proof -
  obtain p where b: "UdpPacket_build (PyInt 5000) (PyInt 7) (Some [112, 105, 110, 103]) None 0
      = (Inr p, 1)"
    by (simp add: UdpPacket_build_def Tracker_init_def)
  note t = udp_build_length [OF b]
  have p: "p = \<lparr>udp_tracker = Tracker TX 0 None, udp_sport = PyInt 5000, udp_dport = PyInt 7,
      udp_len = 12, udp_cksum = 0, raw_data = [112, 105, 110, 103], ip_pseudo_header = None\<rparr>"
    using b by (auto simp: UdpPacket_build_def Tracker_init_def UDP_HEADER_LEN_def)
  have r: "udp_raw_packet p = Inr [19, 136, 0, 7, 0, 12, 0, 0, 112, 105, 110, 103]"
    by (simp add: p udp_raw_packet_def udp_raw_header_def pack_H_def bind_err_def)
  have c: "compute_cksum p [192, 168, 9, 7, 192, 168, 9, 1, 0, 17, 0, 12] = Inr 31261"
    by (simp add: compute_cksum_def r bind_err_def unpack_words_def cksum_fold_def)
  have g: "udp_get_raw_packet p [192, 168, 9, 7, 192, 168, 9, 1, 0, 17, 0, 12]
      = Inr (p\<lparr>udp_cksum := 31261\<rparr>, [19, 136, 0, 7, 0, 12, 122, 29, 112, 105, 110, 103])"
    by (simp add: udp_get_raw_packet_def c bind_err_def)
      (simp add: p udp_raw_packet_def udp_raw_header_def pack_H_def bind_err_def)
  from t r g b show ?thesis
    by auto
qed

section \<open>The checksum computation\<close>

lemma words_be_append:
  "even (length a) \<Longrightarrow> words_be (a @ b) = words_be a @ words_be b"
  by (induction a rule: words_be.induct) simp_all

lemma length_words_be: "length (words_be b) = length b div 2"
  by (induction b rule: words_be.induct) simp_all

lemma uint_be16:
  assumes "u16 n"
  shows "uint (word_of_int (n div 256) :: 8 word) * 256 + uint (word_of_int n :: 8 word) = n"
proof -
  from assms have n: "0 \<le> n" "n \<le> 65535"
    by (simp_all add: u16_def)
  have "n div 256 \<le> 65535 div 256"
    using n(2) by (rule zdiv_mono1) simp
  moreover have "0 \<le> n div 256"
    using n(1) by (simp add: pos_imp_zdiv_nonneg_iff)
  ultimately have "0 \<le> n div 256" "n div 256 < 256"
    by simp_all
  then have "(n div 256) mod 256 = n div 256"
    by simp
  then show ?thesis
    by (simp add: uint_word8_of_int)
qed

lemma words_be_be16: "u16 n \<Longrightarrow> words_be (be16 n @ rest) = n # words_be rest"
  by (simp add: be16_def uint_be16)

lemma words_be_range: "w \<in> set (words_be b) \<Longrightarrow> 0 \<le> w \<and> w \<le> 0xFFFF"
proof (induction b rule: words_be.induct)
  case (1 x y rest)
  have "0 \<le> uint x * 256 + uint y \<and> uint x * 256 + uint y \<le> 0xFFFF"
    using uint8_range [of x] uint8_range [of y] by simp
  with 1 show ?case by auto
qed simp_all

lemma cksum_fold_arith:
  "cksum_fold s = (- (s mod 65536 + s div 65536) - 1) mod 65536"
proof -
  have m: "(0xFFFF :: int) = mask 16"
    by (simp add: mask_eq_exp_minus_1)
  have "x AND 0xFFFF = x mod 65536" for x :: int
    unfolding m by (simp add: take_bit_eq_mask [symmetric] take_bit_eq_mod)
  moreover have "drop_bit 16 s = s div 65536"
    by (simp add: drop_bit_eq_div)
  ultimately show ?thesis
    by (simp add: cksum_fold_def not_int_def)
qed

lemma u16_cksum_fold: "u16 (cksum_fold s)"
  by (simp add: cksum_fold_arith u16_def)

lemma pack_H_Inl: "pack_H v = Inl e \<Longrightarrow> e = StructError"
  by (cases v) (auto simp: pack_H_def split: if_splits)

lemma udp_raw_packet_Inl:
  assumes "udp_raw_packet p = Inl e"
  shows "e = StructError"
  using assms
  by (auto simp: udp_raw_packet_def udp_raw_header_def bind_err_def split: sum.splits
      dest: pack_H_Inl)

lemma udp_raw_packet_cases:
  obtains (fail) "udp_raw_packet p = Inl StructError"
  | (ok) s t where "udp_sport p = PyInt s" "udp_dport p = PyInt t" "u16 s" "u16 t"
      "u16 (udp_len p)" "u16 (udp_cksum p)"
      "udp_raw_packet p
         = Inr (be16 s @ be16 t @ be16 (udp_len p) @ be16 (udp_cksum p) @ raw_data p)"
proof (cases "udp_raw_packet p")
  case (Inl e)
  then show ?thesis using udp_raw_packet_Inl fail by blast
next
  case (Inr raw)
  then show ?thesis using ok by (auto simp: udp_raw_packet_Inr_iff)
qed

lemma list_update_header:
  assumes "length a = 6"
  shows "(a @ s # t # l # c # r)[6 + 3 := z] = a @ s # t # l # z # r"
proof -
  have "(a @ s # t # l # c # r)[6 + 3 := z] = a @ (s # t # l # c # r)[3 := z]"
    using assms by (simp add: list_update_append)
  also have "(s # t # l # c # r)[3 := z] = s # t # l # z # r"
    by (simp add: eval_nat_numeral)
  finally show ?thesis .
qed

lemma words_be_udp:
  assumes "even (length pseudo)" "u16 s" "u16 t" "u16 l" "u16 c"
  shows "words_be (pseudo @ (be16 s @ be16 t @ be16 l @ be16 c @ d) @ pad)
      = words_be pseudo @ s # t # l # c # words_be (d @ pad)"
  by (simp only: append_assoc words_be_append [OF assms(1)] words_be_be16 [OF assms(2)]
      words_be_be16 [OF assms(3)] words_be_be16 [OF assms(4)] words_be_be16 [OF assms(5)])

text \<open>
  With a 12-byte pseudo-header the word at index \<open>6 + 3\<close> is the checksum field of the UDP
  header, so \<open>compute_cksum\<close> folds the sum over the pseudo-header, the header with a zero
  checksum field, the payload and the pad byte.
\<close>

lemma compute_cksum_zeroed:
  assumes "length pseudo = 12" "u16 (udp_cksum p)"
  shows "compute_cksum p pseudo =
     bind_err (udp_raw_packet (p\<lparr>udp_cksum := 0\<rparr>)) (\<lambda>raw0.
       Inr (cksum_fold (sum_list (words_be
              (pseudo @ raw0 @ (if odd (length raw0) then [0] else []))))))"
proof (cases p rule: udp_raw_packet_cases)
  case fail
  have "udp_raw_packet (p\<lparr>udp_cksum := 0\<rparr>) = Inl StructError"
  proof (cases "p\<lparr>udp_cksum := 0\<rparr>" rule: udp_raw_packet_cases)
    case fail
    then show ?thesis .
  next
    case (ok s t)
    from udp_raw_packet_cksum_update [OF ok(7) assms(2)]
    have "\<exists>raw. udp_raw_packet p = Inr raw" by simp
    with \<open>udp_raw_packet p = Inl StructError\<close> show ?thesis by simp
  qed
  with fail show ?thesis
    by (simp add: compute_cksum_def bind_err_def)
next
  case (ok s t)
  let ?d = "raw_data p"
  let ?pad = "if odd (length ?d) then [0] else [] :: bytes"
  let ?raw = "be16 s @ be16 t @ be16 (udp_len p) @ be16 (udp_cksum p) @ ?d"
  let ?zraw = "be16 s @ be16 t @ be16 (udp_len p) @ be16 0 @ ?d"
  have z: "u16 0" by (simp add: u16_def)
  have raw0: "udp_raw_packet (p\<lparr>udp_cksum := 0\<rparr>) = Inr ?zraw"
    using ok z by (simp add: udp_raw_packet_Inr_iff)
  have ev: "even (length pseudo)" "even (length (pseudo @ ?raw @ ?pad))"
    using assms(1) by simp_all
  have w: "words_be (pseudo @ ?raw @ ?pad)
      = words_be pseudo @ s # t # udp_len p # udp_cksum p # words_be (?d @ ?pad)"
    using ev(1) ok(3-6) by (rule words_be_udp)
  have w0: "words_be (pseudo @ ?zraw @ ?pad)
      = words_be pseudo @ s # t # udp_len p # 0 # words_be (?d @ ?pad)"
    using ev(1) ok(3-5) z by (rule words_be_udp)
  have l: "length (words_be pseudo) = 6"
    using assms(1) by (simp add: length_words_be)
  have len: "6 + 3 < length (words_be (pseudo @ ?raw @ ?pad))"
    unfolding w using l by simp
  have upd: "(words_be (pseudo @ ?raw @ ?pad))[6 + 3 := 0] = words_be (pseudo @ ?zraw @ ?pad)"
    unfolding w w0 using l by (rule list_update_header)
  have odd_eq: "odd (length ?raw) = odd (length ?d)" "odd (length ?zraw) = odd (length ?d)"
    by simp_all
  have "compute_cksum p pseudo
      = Inr (cksum_fold (sum_list ((words_be (pseudo @ ?raw @ ?pad))[6 + 3 := 0])))"
    using ok(7) ev(2) len
    by (simp only: compute_cksum_def bind_err_simps Let_def unpack_words_def odd_eq if_True)
  also have "\<dots> = Inr (cksum_fold (sum_list (words_be (pseudo @ ?zraw @ ?pad))))"
    by (simp only: upd)
  finally show ?thesis
    by (simp only: raw0 bind_err_simps odd_eq)
qed

lemma compute_cksum_Inr_u16:
  assumes "compute_cksum p pseudo = Inr c"
  shows "u16 (udp_cksum p) \<and> u16 c"
proof -
  from assms obtain raw where "udp_raw_packet p = Inr raw"
    by (auto simp: compute_cksum_def bind_err_Inr_iff)
  then have "u16 (udp_cksum p)"
    by (auto simp: udp_raw_packet_Inr_iff)
  moreover from assms have "u16 c"
    by (auto simp: compute_cksum_def bind_err_Inr_iff Let_def u16_cksum_fold split: if_splits)
  ultimately show ?thesis ..
qed

lemma udp_get_raw_packet_12:
  assumes "length pseudo = 12" "udp_get_raw_packet p pseudo = Inr (p', raw)"
  shows "\<exists>zraw c. udp_raw_packet (p\<lparr>udp_cksum := 0\<rparr>) = Inr zraw
      \<and> c = cksum_fold (sum_list (words_be
              (pseudo @ zraw @ (if odd (length zraw) then [0] else []))))
      \<and> compute_cksum p pseudo = Inr c \<and> u16 c \<and> u16 (udp_cksum p)
      \<and> p' = p\<lparr>udp_cksum := c\<rparr>
      \<and> raw = take 6 zraw @ be16 c @ drop 8 zraw"
proof -
  from assms(2) obtain c where c: "compute_cksum p pseudo = Inr c"
    and p': "p' = p\<lparr>udp_cksum := c\<rparr>" and raw: "udp_raw_packet p' = Inr raw"
    by (auto simp: udp_get_raw_packet_def bind_err_Inr_iff Let_def)
  from c have u: "u16 (udp_cksum p)" "u16 c"
    using compute_cksum_Inr_u16 by blast+
  from c compute_cksum_zeroed [OF assms(1) u(1)]
  obtain zraw where z: "udp_raw_packet (p\<lparr>udp_cksum := 0\<rparr>) = Inr zraw"
    and cz: "c = cksum_fold (sum_list (words_be
              (pseudo @ zraw @ (if odd (length zraw) then [0] else []))))"
    by (auto simp: bind_err_Inr_iff)
  from udp_raw_packet_cksum_update [OF z u(2)] raw
  have "raw = take 6 zraw @ be16 c @ drop 8 zraw"
    by (simp add: p')
  with z cz c u p' show ?thesis by blast
qed

section \<open>The stored checksum does not enter the computation\<close>

text \<open>
  Claim C7. With a 12-byte pseudo-header, \<open>compute_cksum\<close> gives the same result (or
  the same error) whatever 16-bit value the checksum field of the packet holds, and
  a second \<open>get_raw_packet\<close> on the packet left by a first one returns the same bytes
  and leaves the packet as it is.
\<close>

theorem compute_cksum_ignores_stored_cksum:
  assumes "length pseudo = 12"
  shows "(\<forall>c1 c2. u16 c1 \<and> u16 c2 \<longrightarrow>
            compute_cksum (p\<lparr>udp_cksum := c1\<rparr>) pseudo
              = compute_cksum (p\<lparr>udp_cksum := c2\<rparr>) pseudo)
     \<and> (\<forall>p' raw. udp_get_raw_packet p pseudo = Inr (p', raw) \<longrightarrow>
            udp_get_raw_packet p' pseudo = Inr (p', raw))"
proof (intro conjI allI impI)
  fix c1 c2 assume "u16 c1 \<and> u16 c2"
  then show "compute_cksum (p\<lparr>udp_cksum := c1\<rparr>) pseudo
      = compute_cksum (p\<lparr>udp_cksum := c2\<rparr>) pseudo"
    using compute_cksum_zeroed [OF assms, of "p\<lparr>udp_cksum := c1\<rparr>"]
      compute_cksum_zeroed [OF assms, of "p\<lparr>udp_cksum := c2\<rparr>"]
    by simp
next
  fix p' raw assume g: "udp_get_raw_packet p pseudo = Inr (p', raw)"
  from udp_get_raw_packet_12 [OF assms g] obtain c where c: "compute_cksum p pseudo = Inr c"
    and u: "u16 c" "u16 (udp_cksum p)" and p': "p' = p\<lparr>udp_cksum := c\<rparr>"
    by blast
  from g c have raw: "udp_raw_packet p' = Inr raw"
    by (auto simp: udp_get_raw_packet_def bind_err_Inr_iff Let_def)
  have "compute_cksum p' pseudo = compute_cksum (p\<lparr>udp_cksum := udp_cksum p\<rparr>) pseudo"
    unfolding p'
    using compute_cksum_zeroed [OF assms, of "p\<lparr>udp_cksum := c\<rparr>"]
      compute_cksum_zeroed [OF assms, of "p\<lparr>udp_cksum := udp_cksum p\<rparr>"] u
    by simp
  then have "compute_cksum p' pseudo = Inr c"
    using c by simp
  moreover have "p'\<lparr>udp_cksum := c\<rparr> = p'"
    by (simp add: p')
  ultimately show "udp_get_raw_packet p' pseudo = Inr (p', raw)"
    using raw by (simp add: udp_get_raw_packet_def bind_err_def Let_def)
qed

theorem compute_cksum_ignores_stored_cksum_witness:
  "length [192, 168, 9, 7, 192, 168, 9, 1, 0, 17, 0, 12 :: 8 word] = 12
   \<and> u16 0 \<and> u16 4660
   \<and> compute_cksum
        \<lparr>udp_tracker = Tracker TX 0 None, udp_sport = PyInt 5000, udp_dport = PyInt 7,
         udp_len = 12, udp_cksum = 4660, raw_data = [112, 105, 110, 103],
         ip_pseudo_header = None\<rparr>
        [192, 168, 9, 7, 192, 168, 9, 1, 0, 17, 0, 12] = Inr 31261
   \<and> udp_get_raw_packet
        \<lparr>udp_tracker = Tracker TX 0 None, udp_sport = PyInt 5000, udp_dport = PyInt 7,
         udp_len = 12, udp_cksum = 31261, raw_data = [112, 105, 110, 103],
         ip_pseudo_header = None\<rparr>
        [192, 168, 9, 7, 192, 168, 9, 1, 0, 17, 0, 12]
       = Inr (\<lparr>udp_tracker = Tracker TX 0 None, udp_sport = PyInt 5000, udp_dport = PyInt 7,
               udp_len = 12, udp_cksum = 31261, raw_data = [112, 105, 110, 103],
               ip_pseudo_header = None\<rparr>,
              [19, 136, 0, 7, 0, 12, 122, 29, 112, 105, 110, 103])"
proof -
  let ?ph = "[192, 168, 9, 7, 192, 168, 9, 1, 0, 17, 0, 12] :: bytes"
  let ?P = "\<lparr>udp_tracker = Tracker TX 0 None, udp_sport = PyInt 5000, udp_dport = PyInt 7,
         udp_len = 12, udp_cksum = 0, raw_data = [112, 105, 110, 103],
         ip_pseudo_header = None\<rparr>"
  have l: "length ?ph = 12" by simp
  have u: "u16 0 \<and> u16 4660" by (simp add: u16_def)
  note t = compute_cksum_ignores_stored_cksum [OF l, of ?P]
  have r: "udp_raw_packet ?P = Inr [19, 136, 0, 7, 0, 12, 0, 0, 112, 105, 110, 103]"
    by (simp add: udp_raw_packet_def udp_raw_header_def pack_H_def bind_err_def)
  have c: "compute_cksum ?P ?ph = Inr 31261"
    by (simp add: compute_cksum_def r bind_err_def unpack_words_def cksum_fold_def)
  have g: "udp_get_raw_packet ?P ?ph
      = Inr (?P\<lparr>udp_cksum := 31261\<rparr>, [19, 136, 0, 7, 0, 12, 122, 29, 112, 105, 110, 103])"
    by (simp add: udp_get_raw_packet_def c bind_err_def)
      (simp add: udp_raw_packet_def udp_raw_header_def pack_H_def bind_err_def)
  from t u have "compute_cksum (?P\<lparr>udp_cksum := 4660\<rparr>) ?ph
      = compute_cksum (?P\<lparr>udp_cksum := 0\<rparr>) ?ph"
    by blast
  with c have 1: "compute_cksum (?P\<lparr>udp_cksum := 4660\<rparr>) ?ph = Inr 31261"
    by simp
  from t g have 2: "udp_get_raw_packet (?P\<lparr>udp_cksum := 31261\<rparr>) ?ph
      = Inr (?P\<lparr>udp_cksum := 31261\<rparr>, [19, 136, 0, 7, 0, 12, 122, 29, 112, 105, 110, 103])"
    by blast
  from l u 1 2 show ?thesis by simp
qed

section \<open>What the transmitted UDP checksum covers\<close>

text \<open>
  Claim C2 says that a computed checksum of zero is transmitted as \<open>0xFFFF\<close>. The
  datagram from 192.168.9.7 port 27774 to 192.168.9.1 port 7 with an empty payload has
  the computed checksum zero, and \<open>get_raw_packet\<close> returns it with the checksum field
  \<open>00 00\<close>.
\<close>

theorem udp_zero_cksum_sent_as_zero:
  "UdpPacket_build (PyInt 27774) (PyInt 7) (Some []) None 0
     = (Inr \<lparr>udp_tracker = Tracker TX 0 None, udp_sport = PyInt 27774, udp_dport = PyInt 7,
              udp_len = 8, udp_cksum = 0, raw_data = [], ip_pseudo_header = None\<rparr>, 1)
   \<and> compute_cksum
        \<lparr>udp_tracker = Tracker TX 0 None, udp_sport = PyInt 27774, udp_dport = PyInt 7,
         udp_len = 8, udp_cksum = 0, raw_data = [], ip_pseudo_header = None\<rparr>
        [192, 168, 9, 7, 192, 168, 9, 1, 0, 17, 0, 8] = Inr 0
   \<and> udp_get_raw_packet
        \<lparr>udp_tracker = Tracker TX 0 None, udp_sport = PyInt 27774, udp_dport = PyInt 7,
         udp_len = 8, udp_cksum = 0, raw_data = [], ip_pseudo_header = None\<rparr>
        [192, 168, 9, 7, 192, 168, 9, 1, 0, 17, 0, 8]
       = Inr (\<lparr>udp_tracker = Tracker TX 0 None, udp_sport = PyInt 27774, udp_dport = PyInt 7,
               udp_len = 8, udp_cksum = 0, raw_data = [], ip_pseudo_header = None\<rparr>,
              [108, 126, 0, 7, 0, 8, 0, 0])
   \<and> unpack_H (slice 6 8 [108, 126, 0, 7, 0, 8, 0, 0]) = Inr 0
   \<and> unpack_H (slice 6 8 [108, 126, 0, 7, 0, 8, 0, 0]) \<noteq> Inr 0xFFFF"
proof -
  let ?ph = "[192, 168, 9, 7, 192, 168, 9, 1, 0, 17, 0, 8] :: bytes"
  let ?P = "\<lparr>udp_tracker = Tracker TX 0 None, udp_sport = PyInt 27774, udp_dport = PyInt 7,
         udp_len = 8, udp_cksum = 0, raw_data = [], ip_pseudo_header = None\<rparr>"
  have b: "UdpPacket_build (PyInt 27774) (PyInt 7) (Some []) None 0 = (Inr ?P, 1)"
    by (simp add: UdpPacket_build_def Tracker_init_def UDP_HEADER_LEN_def)
  have r: "udp_raw_packet ?P = Inr [108, 126, 0, 7, 0, 8, 0, 0]"
    by (simp add: udp_raw_packet_def udp_raw_header_def pack_H_def bind_err_def)
  have c: "compute_cksum ?P ?ph = Inr 0"
    by (simp add: compute_cksum_def r bind_err_def unpack_words_def cksum_fold_def)
  have g: "udp_get_raw_packet ?P ?ph = Inr (?P, [108, 126, 0, 7, 0, 8, 0, 0])"
    by (simp add: udp_get_raw_packet_def c r bind_err_def)
  have s: "unpack_H (slice 6 8 [108, 126, 0, 7, 0, 8, 0, 0]) = Inr 0"
    by (simp add: slice_def)
  from b c g s show ?thesis by simp
qed

text \<open>
  Claim C2, amended. For a UDP packet built from explicit fields and a 12-byte
  pseudo-header, a successful \<open>get_raw_packet\<close> stores the folded and complemented sum
  of the 16-bit words of the pseudo-header, the UDP header with a zero checksum field,
  and the payload padded with a zero byte to even size; it returns the header with
  that value in the checksum field, followed by the payload. The field always holds
  the computed value: a computed zero is transmitted as \<open>00 00\<close>.
\<close>

theorem udp_get_raw_packet_cksum_covers:
  assumes "UdpPacket_build sport dport (Some d) echo n = (Inr p, n')"
    and "length pseudo = 12"
    and "udp_get_raw_packet p pseudo = Inr (p', raw)"
  shows "\<exists>zraw. udp_raw_packet p = Inr zraw \<and> slice 6 8 zraw = [0, 0] \<and> drop 8 zraw = d
      \<and> udp_cksum p' = cksum_fold (sum_list (words_be
            (pseudo @ zraw @ (if odd (length d) then [0] else []))))
      \<and> p' = p\<lparr>udp_cksum := udp_cksum p'\<rparr>
      \<and> raw = take 6 zraw @ be16 (udp_cksum p') @ d
      \<and> unpack_H (slice 6 8 raw) = Inr (udp_cksum p')
      \<and> (udp_cksum p' = 0 \<longrightarrow> slice 6 8 raw = [0, 0])"
proof -
  from assms(1) have p: "p = \<lparr>udp_tracker = Tracker TX n echo, udp_sport = sport,
      udp_dport = dport, udp_len = 8 + int (length d), udp_cksum = 0, raw_data = d,
      ip_pseudo_header = None\<rparr>"
    by (auto simp: UdpPacket_build_def Tracker_init_def UDP_HEADER_LEN_def)
  then have pz: "p\<lparr>udp_cksum := 0\<rparr> = p" and dp: "raw_data p = d"
    by simp_all
  from udp_get_raw_packet_12 [OF assms(2,3)] obtain zraw c
    where z: "udp_raw_packet p = Inr zraw"
      and c: "c = cksum_fold (sum_list (words_be
              (pseudo @ zraw @ (if odd (length zraw) then [0] else []))))"
      and u: "u16 c" and p': "p' = p\<lparr>udp_cksum := c\<rparr>"
      and raw: "raw = take 6 zraw @ be16 c @ drop 8 zraw"
    unfolding pz by blast
  from z obtain s t where zr: "zraw = be16 s @ be16 t @ be16 (udp_len p) @ be16 (udp_cksum p) @ d"
    by (auto simp: udp_raw_packet_Inr_iff dp)
  have ck0: "udp_cksum p = 0"
    by (simp add: p)
  have 1: "slice 6 8 zraw = [0, 0]" "drop 8 zraw = d" "odd (length zraw) = odd (length d)"
    by (simp_all add: zr ck0 slice_def)
  have 2: "slice 6 8 raw = be16 c"
    by (simp add: raw zr slice_def)
  have 3: "unpack_H (slice 6 8 raw) = Inr c"
    unfolding 2 using u by (rule unpack_H_be16)
  have 4: "udp_cksum p' = c"
    by (simp add: p')
  have 5: "slice 6 8 raw = [0, 0]" if "c = 0"
    using that 2 by simp
  show ?thesis
    using z 1 c p' raw 3 5 unfolding 4 by auto
qed

theorem udp_get_raw_packet_cksum_covers_witness:
  "UdpPacket_build (PyInt 5000) (PyInt 7) (Some [112, 105, 110]) None 0
     = (Inr \<lparr>udp_tracker = Tracker TX 0 None, udp_sport = PyInt 5000, udp_dport = PyInt 7,
              udp_len = 11, udp_cksum = 0, raw_data = [112, 105, 110],
              ip_pseudo_header = None\<rparr>, 1)
   \<and> length [192, 168, 9, 7, 192, 168, 9, 1, 0, 17, 0, 11 :: 8 word] = 12
   \<and> udp_get_raw_packet
        \<lparr>udp_tracker = Tracker TX 0 None, udp_sport = PyInt 5000, udp_dport = PyInt 7,
         udp_len = 11, udp_cksum = 0, raw_data = [112, 105, 110], ip_pseudo_header = None\<rparr>
        [192, 168, 9, 7, 192, 168, 9, 1, 0, 17, 0, 11]
       = Inr (\<lparr>udp_tracker = Tracker TX 0 None, udp_sport = PyInt 5000, udp_dport = PyInt 7,
               udp_len = 11, udp_cksum = 31366, raw_data = [112, 105, 110],
               ip_pseudo_header = None\<rparr>,
              [19, 136, 0, 7, 0, 11, 122, 134, 112, 105, 110])
   \<and> cksum_fold (sum_list (words_be
          ([192, 168, 9, 7, 192, 168, 9, 1, 0, 17, 0, 11]
           @ [19, 136, 0, 7, 0, 11, 0, 0, 112, 105, 110] @ [0]))) = 31366
   \<and> unpack_H (slice 6 8 [19, 136, 0, 7, 0, 11, 122, 134, 112, 105, 110]) = Inr 31366"
proof -
  let ?ph = "[192, 168, 9, 7, 192, 168, 9, 1, 0, 17, 0, 11] :: bytes"
  let ?P = "\<lparr>udp_tracker = Tracker TX 0 None, udp_sport = PyInt 5000, udp_dport = PyInt 7,
         udp_len = 11, udp_cksum = 0, raw_data = [112, 105, 110], ip_pseudo_header = None\<rparr>"
  have b: "UdpPacket_build (PyInt 5000) (PyInt 7) (Some [112, 105, 110]) None 0 = (Inr ?P, 1)"
    by (simp add: UdpPacket_build_def Tracker_init_def UDP_HEADER_LEN_def)
  have l: "length ?ph = 12" by simp
  have r: "udp_raw_packet ?P = Inr [19, 136, 0, 7, 0, 11, 0, 0, 112, 105, 110]"
    by (simp add: udp_raw_packet_def udp_raw_header_def pack_H_def bind_err_def)
  have c: "compute_cksum ?P ?ph = Inr 31366"
    by (simp add: compute_cksum_def r bind_err_def unpack_words_def cksum_fold_def)
  have g: "udp_get_raw_packet ?P ?ph
      = Inr (?P\<lparr>udp_cksum := 31366\<rparr>, [19, 136, 0, 7, 0, 11, 122, 134, 112, 105, 110])"
    by (simp add: udp_get_raw_packet_def c bind_err_def)
      (simp add: udp_raw_packet_def udp_raw_header_def pack_H_def bind_err_def)
  from udp_get_raw_packet_cksum_covers [OF b l g] r
  have "cksum_fold (sum_list (words_be (?ph @ [19, 136, 0, 7, 0, 11, 0, 0, 112, 105, 110] @ [0])))
      = 31366"
    and "unpack_H (slice 6 8 [19, 136, 0, 7, 0, 11, 122, 134, 112, 105, 110]) = Inr 31366"
    by auto
  with b l g show ?thesis by simp
qed

section \<open>The one's-complement sum over a transmitted datagram\<close>

lemma sum_list_words_nonneg: "0 \<le> sum_list (words_be b)"
  by (rule sum_list_nonneg) (simp add: words_be_range)

lemma ones_add_props:
  assumes "0 \<le> a" "a \<le> 65535" "0 \<le> w" "w \<le> 65535"
  shows "0 \<le> ones_add a w" "ones_add a w \<le> 65535"
    "ones_add a w mod 65535 = (a + w) mod 65535"
    "ones_add a w = 0 \<longleftrightarrow> a + w = 0"
  using assms by (simp_all add: ones_add_def Let_def)

lemma foldl_ones_add:
  assumes "0 \<le> a" "a \<le> 65535" "\<forall>w \<in> set ws. 0 \<le> w \<and> w \<le> 65535"
  shows "0 \<le> foldl ones_add a ws \<and> foldl ones_add a ws \<le> 65535
     \<and> foldl ones_add a ws mod 65535 = (a + sum_list ws) mod 65535
     \<and> (foldl ones_add a ws = 0 \<longleftrightarrow> a + sum_list ws = 0)"
  using assms
proof (induction ws arbitrary: a)
  case Nil
  then show ?case by simp
next
  case (Cons w ws)
  let ?b = "ones_add a w"
  from Cons.prems have w: "0 \<le> w" "w \<le> 65535" and ws: "\<forall>w \<in> set ws. 0 \<le> w \<and> w \<le> 65535"
    by simp_all
  note b = ones_add_props [OF Cons.prems(1,2) w]
  from Cons.IH [OF b(1,2) ws]
  have r: "0 \<le> foldl ones_add ?b ws" "foldl ones_add ?b ws \<le> 65535"
    and m: "foldl ones_add ?b ws mod 65535 = (?b + sum_list ws) mod 65535"
    and z: "foldl ones_add ?b ws = 0 \<longleftrightarrow> ?b + sum_list ws = 0"
    by simp_all
  have s: "0 \<le> sum_list ws"
    using ws by (simp add: sum_list_nonneg)
  have "(?b + sum_list ws) mod 65535 = (?b mod 65535 + sum_list ws) mod 65535"
    by (simp add: mod_add_left_eq)
  also have "\<dots> = ((a + w) mod 65535 + sum_list ws) mod 65535"
    by (simp only: b(3))
  also have "\<dots> = (a + sum_list (w # ws)) mod 65535"
    by (simp add: mod_add_left_eq add.assoc)
  finally have m': "foldl ones_add ?b ws mod 65535 = (a + sum_list (w # ws)) mod 65535"
    using m by simp
  have "?b + sum_list ws = 0 \<longleftrightarrow> a + sum_list (w # ws) = 0"
    using b(1,4) s Cons.prems(1) w(1) by auto
  with z have z': "foldl ones_add ?b ws = 0 \<longleftrightarrow> a + sum_list (w # ws) = 0"
    by simp
  from r m' z' show ?case by simp
qed

lemma ones_sum_words:
  "0 \<le> ones_sum (words_be b) \<and> ones_sum (words_be b) \<le> 65535
     \<and> ones_sum (words_be b) mod 65535 = sum_list (words_be b) mod 65535
     \<and> (ones_sum (words_be b) = 0 \<longleftrightarrow> sum_list (words_be b) = 0)"
  using foldl_ones_add [of 0 "words_be b"] words_be_range [of _ b]
  by (simp add: ones_sum_def)

lemma int_bits_arith:
  "(s :: int) AND 0xFFFF = s mod 65536" "drop_bit 16 s = s div 65536"
proof -
  have m: "(0xFFFF :: int) = mask 16"
    by (simp add: mask_eq_exp_minus_1)
  show "s AND 0xFFFF = s mod 65536"
    unfolding m by (simp add: take_bit_eq_mask [symmetric] take_bit_eq_mod)
  show "drop_bit 16 s = s div 65536"
    by (simp add: drop_bit_eq_div)
qed

lemma cksum_fold_no_carry:
  assumes "0 \<le> s" "(s AND 0xFFFF) + drop_bit 16 s \<le> 0xFFFF"
  shows "cksum_fold s = 0xFFFF - ((s AND 0xFFFF) + drop_bit 16 s)"
    and "s + cksum_fold s = 65535 * (s div 65536 + 1)"
proof -
  let ?f = "s mod 65536 + s div 65536"
  have f: "0 \<le> ?f" "?f \<le> 65535"
    using assms by (simp_all add: int_bits_arith pos_imp_zdiv_nonneg_iff)
  have "(- x - 1) mod 65536 = 65535 - x" if "0 \<le> x" "x \<le> 65535" for x :: int
  proof -
    have "- x - 1 = 65535 - x - 65536"
      by linarith
    then have "(- x - 1) mod 65536 = (65535 - x - 65536) mod 65536"
      by (rule arg_cong)
    also have "\<dots> = (65535 - x) mod 65536"
      by (rule minus_mod_self2)
    also have "\<dots> = 65535 - x"
      using that by simp
    finally show ?thesis .
  qed
  from this [OF f] have c: "cksum_fold s = 65535 - ?f"
    by (simp only: cksum_fold_arith)
  then show "cksum_fold s = 0xFFFF - ((s AND 0xFFFF) + drop_bit 16 s)"
    by (simp add: int_bits_arith)
  have e: "s + (65535 - (r + q)) = 65535 * (q + 1)" if "s = 65536 * q + r" for q r :: int
    using that by simp
  have "s = 65536 * (s div 65536) + s mod 65536"
    by simp
  then show "s + cksum_fold s = 65535 * (s div 65536 + 1)"
    unfolding c by (rule e)
qed

lemma sum_words_transmitted:
  assumes "length pseudo = 12" "udp_raw_packet (p\<lparr>udp_cksum := 0\<rparr>) = Inr zraw" "u16 c"
  shows "sum_list (words_be (pseudo @ (take 6 zraw @ be16 c @ drop 8 zraw)
            @ (if odd (length zraw) then [0] else [])))
      = sum_list (words_be (pseudo @ zraw @ (if odd (length zraw) then [0] else []))) + c"
    and "odd (length (take 6 zraw @ be16 c @ drop 8 zraw)) = odd (length zraw)"
proof -
  let ?pad = "if odd (length zraw) then [0] else [] :: bytes"
  from assms(2) obtain s t where s: "u16 s" "u16 t" "u16 (udp_len p)"
    and z: "zraw = be16 s @ be16 t @ be16 (udp_len p) @ be16 0 @ raw_data p"
    by (auto simp: udp_raw_packet_Inr_iff simp del: be16_zero)
  have r: "take 6 zraw @ be16 c @ drop 8 zraw
      = be16 s @ be16 t @ be16 (udp_len p) @ be16 c @ raw_data p"
    by (simp add: z)
  have ev: "even (length pseudo)"
    using assms(1) by simp
  have u0: "u16 0"
    by (simp add: u16_def)
  have "words_be (pseudo @ (be16 s @ be16 t @ be16 (udp_len p) @ be16 c @ raw_data p) @ ?pad)
      = words_be pseudo @ s # t # udp_len p # c # words_be (raw_data p @ ?pad)"
    using ev s assms(3) by (rule words_be_udp)
  moreover have "words_be (pseudo @ (be16 s @ be16 t @ be16 (udp_len p) @ be16 0 @ raw_data p) @ ?pad)
      = words_be pseudo @ s # t # udp_len p # 0 # words_be (raw_data p @ ?pad)"
    using ev s u0 by (rule words_be_udp)
  ultimately show "sum_list (words_be (pseudo @ (take 6 zraw @ be16 c @ drop 8 zraw) @ ?pad))
      = sum_list (words_be (pseudo @ zraw @ ?pad)) + c"
    unfolding r unfolding z by simp
  show "odd (length (take 6 zraw @ be16 c @ drop 8 zraw)) = odd (length zraw)"
    by (simp add: r) (simp add: z)
qed

text \<open>
  Where the stored checksum does verify. Let \<open>s\<close> be the sum of the 16-bit words of a
  12-byte pseudo-header, the packet with a zero checksum field, and the pad byte. The
  checksum that \<open>get_raw_packet\<close> stores is the complement of \<open>s\<close> with its carries folded
  in once. If that one fold leaves no further carry, the one's-complement sum over the
  pseudo-header and the serialized packet is \<open>0xFFFF\<close>, the one's-complement zero. The
  sums whose fold carries again are the ones the next theorem is about.
\<close>

lemma udp_cksum_zero_sum_without_carry:
  assumes "length pseudo = 12"
    and "udp_get_raw_packet p pseudo = Inr (p', raw)"
    and "udp_raw_packet (p\<lparr>udp_cksum := 0\<rparr>) = Inr zraw"
    and "s = sum_list (words_be (pseudo @ zraw @ (if odd (length zraw) then [0] else [])))"
    and "(s AND 0xFFFF) + drop_bit 16 s \<le> 0xFFFF"
  shows "udp_cksum p' = cksum_fold s
     \<and> udp_cksum p' = 0xFFFF - ((s AND 0xFFFF) + drop_bit 16 s)
     \<and> ones_sum (words_be (pseudo @ raw @ (if odd (length raw) then [0] else []))) = 0xFFFF"
proof -
  let ?pad = "if odd (length zraw) then [0] else [] :: bytes"
  from udp_get_raw_packet_12 [OF assms(1,2)] assms(3,4)
  have c: "udp_cksum p' = cksum_fold s" and u: "u16 (cksum_fold s)"
    and raw: "raw = take 6 zraw @ be16 (cksum_fold s) @ drop 8 zraw"
    by auto
  have s0: "0 \<le> s"
    unfolding assms(4) by (rule sum_list_words_nonneg)
  note nc = cksum_fold_no_carry [OF s0 assms(5)]
  let ?w = "words_be (pseudo @ raw @ (if odd (length raw) then [0] else []))"
  from sum_words_transmitted [OF assms(1,3) u]
  have "sum_list ?w = s + cksum_fold s"
    by (simp only: raw assms(4))
  with nc(2) have total: "sum_list ?w = 65535 * (s div 65536 + 1)"
    by simp
  have q: "0 \<le> s div 65536"
    using s0 by (simp add: pos_imp_zdiv_nonneg_iff)
  from total q have pos: "sum_list ?w \<noteq> 0"
    by simp
  from total have m: "sum_list ?w mod 65535 = 0"
    by simp
  from ones_sum_words [of "pseudo @ raw @ (if odd (length raw) then [0] else [])"] pos m
  have o: "0 \<le> ones_sum ?w" "ones_sum ?w \<le> 65535" "ones_sum ?w mod 65535 = 0"
    "ones_sum ?w \<noteq> 0"
    by simp_all
  from o(3) obtain k where k: "ones_sum ?w = 65535 * k"
    by (auto simp: mod_eq_0_iff_dvd)
  with o(1,2,4) have "k = 1"
    by simp
  with k have "ones_sum ?w = 0xFFFF"
    by simp
  with c nc(1) show ?thesis by simp
qed

text \<open>
  Claim C4. For every packet whose checksum \<open>get_raw_packet\<close> has populated, the
  one's-complement sum over the pseudo-header and the serialized packet should be zero.
  \<open>compute_cksum\<close> folds the carries of the word sum once and masks the result, so a
  carry out of that fold is lost. The datagram from 192.168.9.7 port 27775 to
  192.168.9.1 port 7 with an empty payload has the word sum \<open>0x1FFFF\<close>: it is serialized
  with checksum \<open>0xFFFF\<close>, the one's-complement sum over the pseudo-header and these
  bytes is 1, and the folded and complemented sum is \<open>0xFFFF\<close>, not zero. The checksum
  that makes the sum zero for this datagram is \<open>0xFFFE\<close>.
\<close>

theorem udp_cksum_sum_not_zero:
  "UdpPacket_build (PyInt 27775) (PyInt 7) (Some []) None 0
     = (Inr \<lparr>udp_tracker = Tracker TX 0 None, udp_sport = PyInt 27775, udp_dport = PyInt 7,
              udp_len = 8, udp_cksum = 0, raw_data = [], ip_pseudo_header = None\<rparr>, 1)
   \<and> udp_get_raw_packet
        \<lparr>udp_tracker = Tracker TX 0 None, udp_sport = PyInt 27775, udp_dport = PyInt 7,
         udp_len = 8, udp_cksum = 0, raw_data = [], ip_pseudo_header = None\<rparr>
        [192, 168, 9, 7, 192, 168, 9, 1, 0, 17, 0, 8]
       = Inr (\<lparr>udp_tracker = Tracker TX 0 None, udp_sport = PyInt 27775, udp_dport = PyInt 7,
               udp_len = 8, udp_cksum = 65535, raw_data = [], ip_pseudo_header = None\<rparr>,
              [108, 127, 0, 7, 0, 8, 255, 255])
   \<and> ones_sum (words_be ([192, 168, 9, 7, 192, 168, 9, 1, 0, 17, 0, 8]
                               @ [108, 127, 0, 7, 0, 8, 255, 255])) = 1
   \<and> cksum_fold (sum_list (words_be ([192, 168, 9, 7, 192, 168, 9, 1, 0, 17, 0, 8]
                               @ [108, 127, 0, 7, 0, 8, 255, 255]))) = 65535
   \<and> ones_sum (words_be ([192, 168, 9, 7, 192, 168, 9, 1, 0, 17, 0, 8]
                               @ [108, 127, 0, 7, 0, 8, 255, 254])) = 65535"
proof -
  let ?ph = "[192, 168, 9, 7, 192, 168, 9, 1, 0, 17, 0, 8] :: bytes"
  let ?P = "\<lparr>udp_tracker = Tracker TX 0 None, udp_sport = PyInt 27775, udp_dport = PyInt 7,
         udp_len = 8, udp_cksum = 0, raw_data = [], ip_pseudo_header = None\<rparr>"
  have b: "UdpPacket_build (PyInt 27775) (PyInt 7) (Some []) None 0 = (Inr ?P, 1)"
    by (simp add: UdpPacket_build_def Tracker_init_def UDP_HEADER_LEN_def)
  have r: "udp_raw_packet ?P = Inr [108, 127, 0, 7, 0, 8, 0, 0]"
    by (simp add: udp_raw_packet_def udp_raw_header_def pack_H_def bind_err_def)
  have c: "compute_cksum ?P ?ph = Inr 65535"
    by (simp add: compute_cksum_def r bind_err_def unpack_words_def cksum_fold_def)
  have g: "udp_get_raw_packet ?P ?ph
      = Inr (?P\<lparr>udp_cksum := 65535\<rparr>, [108, 127, 0, 7, 0, 8, 255, 255])"
    by (simp add: udp_get_raw_packet_def c bind_err_def)
      (simp add: udp_raw_packet_def udp_raw_header_def pack_H_def bind_err_def)
  have o: "ones_sum (words_be (?ph @ [108, 127, 0, 7, 0, 8, 255, 255])) = 1"
    by (simp add: ones_sum_def ones_add_def)
  have f: "cksum_fold (sum_list (words_be (?ph @ [108, 127, 0, 7, 0, 8, 255, 255]))) = 65535"
    by (simp add: cksum_fold_def)
  have v: "ones_sum (words_be (?ph @ [108, 127, 0, 7, 0, 8, 255, 254])) = 65535"
    by (simp add: ones_sum_def ones_add_def)
  from b g o f v show ?thesis by simp
qed

section \<open>Round trips\<close>

lemma be16_bytes: "be16 (uint (x :: 8 word) * 256 + uint (y :: 8 word)) = [x, y]"
  unfolding be16_def by (simp only: word8_hi word8_lo)

lemma u16_bytes: "u16 (uint (x :: 8 word) * 256 + uint (y :: 8 word))"
  using uint8_range [of x] uint8_range [of y] by (simp add: u16_def)

lemma pack_H_bytes: "pack_H (PyInt (uint (x :: 8 word) * 256 + uint (y :: 8 word))) = Inr [x, y]"
  by (simp only: pack_H_PyInt u16_bytes be16_bytes if_True)

lemma take_4_nth:
  assumes "4 \<le> length b"
  shows "take 4 b = [b ! 0, b ! 1, b ! 2, b ! 3]"
proof -
  have "[0 ..< 4] = [0, 1, 2, 3 :: nat]"
    by (simp add: upt_rec)
  with assms slice_eq_map_nth [of 0 4 b] show ?thesis
    by (simp add: slice_def min_def)
qed

lemma take_8_nth:
  assumes "8 \<le> length b"
  shows "take 8 b = [b ! 0, b ! 1, b ! 2, b ! 3, b ! 4, b ! 5, b ! 6, b ! 7]"
proof -
  have "[0 ..< 8] = [0, 1, 2, 3, 4, 5, 6, 7 :: nat]"
    by (simp add: upt_rec)
  with assms slice_eq_map_nth [of 0 8 b] show ?thesis
    by (simp add: slice_def min_def)
qed

lemma split_header_8:
  assumes "8 \<le> length b"
  shows "b = [b ! 0, b ! 1, b ! 2, b ! 3, b ! 4, b ! 5, b ! 6, b ! 7] @ drop 8 b"
  using take_8_nth [OF assms] append_take_drop_id [of 8 b] by simp

lemma split_header_4:
  assumes "4 \<le> length b"
  shows "b = [b ! 0, b ! 1, b ! 2, b ! 3] @ drop 4 b"
  using take_4_nth [OF assms] append_take_drop_id [of 4 b] by simp

text \<open>
  A UDP datagram whose length field equals the size of the buffer is reproduced by
  \<open>raw_packet\<close> after parsing.
\<close>

lemma udp_parse_serialize:
  assumes "8 \<le> length (pp_raw_data parent)"
    and "unpack_H (slice 4 6 (pp_raw_data parent)) = Inr (int (length (pp_raw_data parent)))"
  shows "\<exists>p. UdpPacket_parse parent = Inr p \<and> udp_raw_packet p = Inr (pp_raw_data parent)"
proof -
  let ?b = "pp_raw_data parent"
  from assms have len: "uint (?b ! 4) * 256 + uint (?b ! 5) = int (length ?b)"
    using unpack_H_slice [of 6 4 ?b] by simp
  from udp_parse_Inr [OF assms(1)] obtain p where p: "UdpPacket_parse parent = Inr p"
    and f: "udp_sport p = PyInt (uint (?b ! 0) * 256 + uint (?b ! 1))"
      "udp_dport p = PyInt (uint (?b ! 2) * 256 + uint (?b ! 3))"
      "udp_len p = uint (?b ! 4) * 256 + uint (?b ! 5)"
      "udp_cksum p = uint (?b ! 6) * 256 + uint (?b ! 7)"
      "raw_data p = slice 8 (nat (uint (?b ! 4) * 256 + uint (?b ! 5))) ?b"
    by simp
  have d: "raw_data p = drop 8 ?b"
    by (simp add: f(5) len slice_def)
  have "udp_raw_packet p
      = Inr ([?b ! 0, ?b ! 1] @ [?b ! 2, ?b ! 3] @ [?b ! 4, ?b ! 5] @ [?b ! 6, ?b ! 7] @ drop 8 ?b)"
    by (simp add: udp_raw_packet_def udp_raw_header_def f(1-4) d pack_H_bytes bind_err_def)
  also have "\<dots> = Inr ?b"
    using split_header_8 [OF assms(1)] by simp
  finally show ?thesis using p by blast
qed

text \<open>
  A UDP packet built from explicit fields and serialized, by \<open>raw_packet\<close> or by
  \<open>get_raw_packet\<close>, parses back to the same ports, length and payload.
\<close>

lemma udp_serialize_parse:
  assumes "udp_raw_packet p = Inr raw" "udp_len p = 8 + int (length (raw_data p))"
    and "pp_raw_data parent = raw"
  shows "\<exists>q. UdpPacket_parse parent = Inr q \<and> udp_sport q = udp_sport p
     \<and> udp_dport q = udp_dport p \<and> udp_len q = udp_len p \<and> udp_cksum q = udp_cksum p
     \<and> raw_data q = raw_data p"
proof -
  from assms(1) obtain s t where st: "udp_sport p = PyInt s" "udp_dport p = PyInt t"
    and u: "u16 s" "u16 t" "u16 (udp_len p)" "u16 (udp_cksum p)"
    and raw: "raw = be16 s @ be16 t @ be16 (udp_len p) @ be16 (udp_cksum p) @ raw_data p"
    by (auto simp: udp_raw_packet_Inr_iff)
  have l: "length raw = 8 + length (raw_data p)"
    by (simp add: raw)
  have h: "take 8 raw = be16 s @ be16 t @ be16 (udp_len p) @ be16 (udp_cksum p)"
    by (simp add: raw)
  have s: "slice 0 2 (take 8 raw) = be16 s" "slice 2 4 (take 8 raw) = be16 t"
    "slice 4 6 (take 8 raw) = be16 (udp_len p)" "slice 6 8 (take 8 raw) = be16 (udp_cksum p)"
    unfolding h by (simp_all add: slice_def)
  have d: "slice 8 (nat (udp_len p)) raw = raw_data p"
    by (simp add: assms(2) slice_def raw)
  show ?thesis
    using u d
    by (simp add: UdpPacket_parse_def UDP_HEADER_LEN_def Let_def assms(3) s unpack_H_be16
        bind_err_def st)
qed

text \<open>
  An ICMPv4 echo request or echo reply of at least 8 bytes, and a message of a type
  other than 0, 3 and 8 of at least 4 bytes, are reproduced by \<open>raw_packet\<close> after
  parsing.
\<close>

lemma icmp_parse_header:
  assumes "4 \<le> length b"
  shows "index b 0 = Inr (uint (b ! 0))" "index b (Suc 0) = Inr (uint (b ! Suc 0))"
    "unpack_H (slice 2 4 b) = Inr (uint (b ! 2) * 256 + uint (b ! 3))"
proof -
  from assms have "0 < length b" "Suc 0 < length b"
    by linarith+
  then show "index b 0 = Inr (uint (b ! 0))" "index b (Suc 0) = Inr (uint (b ! Suc 0))"
    by (simp_all add: index_def)
  show "unpack_H (slice 2 4 b) = Inr (uint (b ! 2) * 256 + uint (b ! 3))"
    using assms unpack_H_slice [of 4 2 b] by simp
qed

lemma icmp_parse_echo_Inr:
  assumes "8 \<le> length b"
  shows "icmp_parse_echo p b =
    Inr (p\<lparr>icmpv4_ec_id := Some (PyInt (uint (b ! 4) * 256 + uint (b ! 5))),
           icmpv4_ec_seq := Some (PyInt (uint (b ! 6) * 256 + uint (b ! 7))),
           icmpv4_ec_raw_data := Some (drop 8 b)\<rparr>)"
  using assms unpack_H_slice [of 6 4 b] unpack_H_slice [of 8 6 b]
  by (simp add: icmp_parse_echo_def bind_err_def)

lemma icmp_parse_serialize_echo:
  assumes "8 \<le> length (pp_raw_data parent)"
    and "uint (pp_raw_data parent ! 0) = ICMP4_ECHOREPLY
       \<or> uint (pp_raw_data parent ! 0) = ICMP4_ECHOREQUEST"
  shows "\<exists>p. Icmp4Packet_parse parent = Inr p \<and> icmp_raw_packet p = Inr (pp_raw_data parent)"
proof -
  let ?b = "pp_raw_data parent"
  let ?p = "(icmp_blank (pp_tracker parent) (PyInt (uint (?b ! 0))) (uint (?b ! Suc 0))
               (uint (?b ! 2) * 256 + uint (?b ! 3)))
            \<lparr>icmpv4_ec_id := Some (PyInt (uint (?b ! 4) * 256 + uint (?b ! 5))),
             icmpv4_ec_seq := Some (PyInt (uint (?b ! 6) * 256 + uint (?b ! 7))),
             icmpv4_ec_raw_data := Some (drop 8 ?b)\<rparr>"
  from assms(1) have 4: "4 \<le> length ?b" by simp
  have p: "Icmp4Packet_parse parent = Inr ?p"
    using assms(2)
    by (auto simp: Icmp4Packet_parse_def Let_def icmp_parse_header [OF 4] bind_err_simps
        icmp_parse_echo_Inr [OF assms(1)] ICMP4_ECHOREPLY_def ICMP4_UNREACHABLE_def
        ICMP4_ECHOREQUEST_def)
  have "icmp_raw_echo ?p
      = Inr ([?b ! 0, ?b ! Suc 0, ?b ! 2, ?b ! 3, ?b ! 4, ?b ! 5, ?b ! 6, ?b ! 7] @ drop 8 ?b)"
    by (simp add: icmp_raw_echo_def icmp_blank_def getattr_def bind_err_def pack_B_index
        pack_H_bytes)
  then have "icmp_raw_echo ?p = Inr ?b"
    using split_header_8 [OF assms(1)] by simp
  moreover have "icmp_raw_packet ?p = icmp_raw_echo ?p"
    using assms(2)
    by (auto simp: icmp_raw_packet_def icmp_blank_def ICMP4_ECHOREPLY_def ICMP4_UNREACHABLE_def
        ICMP4_ECHOREQUEST_def)
  ultimately show ?thesis using p by simp
qed

lemma icmp_parse_serialize_unknown:
  assumes "4 \<le> length (pp_raw_data parent)"
    and "uint (pp_raw_data parent ! 0) \<noteq> ICMP4_ECHOREPLY"
    and "uint (pp_raw_data parent ! 0) \<noteq> ICMP4_UNREACHABLE"
    and "uint (pp_raw_data parent ! 0) \<noteq> ICMP4_ECHOREQUEST"
  shows "\<exists>p. Icmp4Packet_parse parent = Inr p \<and> unknown_message p = Some (drop 4 (pp_raw_data parent))
      \<and> icmp_raw_packet p = Inr (pp_raw_data parent)"
proof -
  let ?b = "pp_raw_data parent"
  let ?p = "(icmp_blank (pp_tracker parent) (PyInt (uint (?b ! 0))) (uint (?b ! Suc 0))
               (uint (?b ! 2) * 256 + uint (?b ! 3)))
            \<lparr>unknown_message := Some (drop 4 ?b)\<rparr>"
  have p: "Icmp4Packet_parse parent = Inr ?p"
    using assms(2-4)
    by (simp add: Icmp4Packet_parse_def Let_def icmp_parse_header [OF assms(1)] bind_err_simps)
  have "icmp_raw_packet ?p = Inr ([?b ! 0, ?b ! Suc 0, ?b ! 2, ?b ! 3] @ drop 4 ?b)"
    using assms(2-4)
    by (simp add: icmp_raw_packet_def icmp_blank_def getattr_def bind_err_def pack_B_index
        pack_H_bytes ICMP4_ECHOREPLY_def ICMP4_UNREACHABLE_def ICMP4_ECHOREQUEST_def)
  then have "icmp_raw_packet ?p = Inr ?b"
    using split_header_4 [OF assms(1)] by simp
  with p show ?thesis by simp
qed

text \<open>
  An echo request or echo reply that \<open>raw_packet\<close> serializes parses back to the same
  type, code, checksum, id, sequence number and data.
\<close>

lemma pack_B_Inr_iff:
  "pack_B v = Inr b \<longleftrightarrow> (\<exists>n. v = PyInt n \<and> 0 \<le> n \<and> n \<le> 255 \<and> b = [word_of_int n])"
  by (cases v) (auto simp: pack_B_def)

lemma uint_word8_small: "0 \<le> n \<Longrightarrow> n \<le> 255 \<Longrightarrow> uint (word_of_int n :: 8 word) = n"
  by (simp add: uint_word8_of_int)

lemma icmp_raw_echo_Inr:
  assumes "icmp_raw_echo p = Inr raw"
  shows "\<exists>ty ec_id ec_seq d. icmpv4_type p = PyInt ty \<and> 0 \<le> ty \<and> ty \<le> 255
      \<and> 0 \<le> icmpv4_code p \<and> icmpv4_code p \<le> 255 \<and> u16 (icmpv4_cksum p)
      \<and> icmpv4_ec_id p = Some (PyInt ec_id) \<and> u16 ec_id
      \<and> icmpv4_ec_seq p = Some (PyInt ec_seq) \<and> u16 ec_seq
      \<and> icmpv4_ec_raw_data p = Some d
      \<and> raw = [word_of_int ty, word_of_int (icmpv4_code p)] @ be16 (icmpv4_cksum p)
                @ be16 ec_id @ be16 ec_seq @ d"
  using assms
  by (auto simp: icmp_raw_echo_def bind_err_Inr_iff getattr_def pack_B_Inr_iff pack_H_Inr_iff
      split: option.splits)

lemma icmp_serialize_parse_echo:
  assumes "icmpv4_type p = PyInt ICMP4_ECHOREPLY \<or> icmpv4_type p = PyInt ICMP4_ECHOREQUEST"
    and "icmp_raw_packet p = Inr raw" and "pp_raw_data parent = raw"
  shows "\<exists>q. Icmp4Packet_parse parent = Inr q \<and> icmpv4_type q = icmpv4_type p
     \<and> icmpv4_code q = icmpv4_code p \<and> icmpv4_cksum q = icmpv4_cksum p
     \<and> icmpv4_ec_id q = icmpv4_ec_id p \<and> icmpv4_ec_seq q = icmpv4_ec_seq p
     \<and> icmpv4_ec_raw_data q = icmpv4_ec_raw_data p"
proof -
  from assms(1,2) have "icmp_raw_echo p = Inr raw"
    by (auto simp: icmp_raw_packet_def ICMP4_ECHOREPLY_def ICMP4_UNREACHABLE_def
        ICMP4_ECHOREQUEST_def split: if_splits)
  from icmp_raw_echo_Inr [OF this] obtain ty ec_id ec_seq d
    where ty: "icmpv4_type p = PyInt ty" "0 \<le> ty" "ty \<le> 255"
      and co: "0 \<le> icmpv4_code p" "icmpv4_code p \<le> 255" and ck: "u16 (icmpv4_cksum p)"
      and f: "icmpv4_ec_id p = Some (PyInt ec_id)" "icmpv4_ec_seq p = Some (PyInt ec_seq)"
        "icmpv4_ec_raw_data p = Some d"
      and u: "u16 ec_id" "u16 ec_seq"
      and raw: "raw = [word_of_int ty, word_of_int (icmpv4_code p)] @ be16 (icmpv4_cksum p)
                @ be16 ec_id @ be16 ec_seq @ d"
    by blast
  have i: "index raw 0 = Inr ty" "index raw (Suc 0) = Inr (icmpv4_code p)"
    using ty co by (simp_all add: raw index_def uint_word8_small)
  have s: "slice 2 4 raw = be16 (icmpv4_cksum p)" "slice 4 6 raw = be16 ec_id"
    "slice 6 8 raw = be16 ec_seq" "drop 8 raw = d"
    by (simp_all add: raw slice_def)
  have e: "icmp_parse_echo q raw = Inr (q\<lparr>icmpv4_ec_id := Some (PyInt ec_id),
      icmpv4_ec_seq := Some (PyInt ec_seq), icmpv4_ec_raw_data := Some d\<rparr>)" for q
    using u by (simp add: icmp_parse_echo_def s unpack_H_be16 bind_err_def)
  from assms(1) ty have t: "ty = 0 \<or> ty = 8"
    by (auto simp: ICMP4_ECHOREPLY_def ICMP4_ECHOREQUEST_def)
  have "Icmp4Packet_parse parent =
      Inr ((icmp_blank (pp_tracker parent) (PyInt ty) (icmpv4_code p) (icmpv4_cksum p))
        \<lparr>icmpv4_ec_id := Some (PyInt ec_id), icmpv4_ec_seq := Some (PyInt ec_seq),
         icmpv4_ec_raw_data := Some d\<rparr>)"
    using t ck
    by (auto simp: Icmp4Packet_parse_def Let_def assms(3) i s unpack_H_be16 bind_err_simps e
        ICMP4_ECHOREPLY_def ICMP4_UNREACHABLE_def ICMP4_ECHOREQUEST_def)
  then show ?thesis
    using ty f by (simp add: icmp_blank_def)
qed

text \<open>
  Claim C3. The round trip should hold for every recognized shape, Destination
  Unreachable included. The port-unreachable message built for the datagram
  \<open>45 00 00 1c\<close> serializes to 12 bytes, and parsing these bytes raises
  \<open>struct.error\<close>: neither \<open>parse(serialize(p))\<close> nor \<open>serialize(parse(b))\<close> exists for
  this shape. The lemmas of this section show the round trip for the other shapes.
\<close>

theorem icmp_unreachable_round_trip_fails:
  "icmp_raw_packet (fst (Icmp4Packet_build (PyInt ICMP4_UNREACHABLE) ICMP4_UNREACHABLE_PORT
        PyNone PyNone [] [69, 0, 0, 28] None 0))
     = Inr [3, 3, 0, 0, 0, 0, 0, 0, 69, 0, 0, 28]
   \<and> Icmp4Packet_parse \<lparr>pp_tracker = Tracker RX 0 None,
          pp_raw_data = [3, 3, 0, 0, 0, 0, 0, 0, 69, 0, 0, 28], pp_ip_pseudo_header = []\<rparr>
     = Inl StructError"
proof -
  have "icmp_raw_packet (fst (Icmp4Packet_build (PyInt ICMP4_UNREACHABLE) ICMP4_UNREACHABLE_PORT
        PyNone PyNone [] [69, 0, 0, 28] None 0))
     = Inr [3, 3, 0, 0, 0, 0, 0, 0, 69, 0, 0, 28]"
    unfolding icmp_build_unreachable fst_conv
    by (subst icmp_raw_packet_unreachable [where d = "[69, 0, 0, 28]"])
      (simp_all add: icmp_blank_def)
  moreover have "Icmp4Packet_parse \<lparr>pp_tracker = Tracker RX 0 None,
          pp_raw_data = [3, 3, 0, 0, 0, 0, 0, 0, 69, 0, 0, 28], pp_ip_pseudo_header = []\<rparr>
     = Inl StructError"
    by (simp add: Icmp4Packet_parse_def index_def bind_err_def slice_def
        ICMP4_ECHOREPLY_def ICMP4_UNREACHABLE_def)
  ultimately show ?thesis by simp
qed

end
